theory Spec2Isabelle
  imports Main "HOL-Library.Multiset"
begin

section \<open>Strings\<close>

text \<open>
  A Python \<^verbatim>\<open>str\<close> is a sequence of Unicode code points. The allowed characters of
  \<^verbatim>\<open>clean_filename\<close> reach beyond Latin-1 (U+0178, U+0152, U+0153) and the whitespace
  class of \<^verbatim>\<open>re\<close> beyond one byte, so a string is a list of code points.
\<close>

type_synonym ustring = "nat list"

definition ascii :: "string \<Rightarrow> ustring" where
  "ascii s = map of_char s"

section \<open>clean_filename\<close>

text \<open>
  \<^verbatim>\<open>str.lower()\<close> on the code points it is applied to in \<^verbatim>\<open>clean_filename\<close>: the ASCII capitals,
  the capitals of the Latin-1 block (U+00C0 to U+00DE without the multiplication sign), and
  the two capitals outside it, U+0178 (lower case U+00FF) and U+0152 (lower case U+0153).
\<close>

definition lower_cp :: "nat \<Rightarrow> nat" where
  "lower_cp c =
     (if 65 \<le> c \<and> c \<le> 90 then c + 32
      else if 192 \<le> c \<and> c \<le> 222 \<and> c \<noteq> 215 then c + 32
      else if c = 376 then 255
      else if c = 338 then 339
      else c)"

definition lower :: "ustring \<Rightarrow> ustring" where
  "lower s = map lower_cp s"

text \<open>The second line of \<^verbatim>\<open>good_character\<close>, as the code points of the source text.\<close>

definition accented_capitals :: ustring where
  "accented_capitals =
     [192, 200, 204, 210, 217, 193, 201, 205, 211, 218, 221, 194, 202, 206, 212, 219,
      196, 203, 207, 214, 220, 376, 195, 209, 213, 197, 198, 338, 199, 208, 216]"

definition good_character :: ustring where
  "good_character =
     (let g0 = ascii ''ABCDEFGHIJKLMNOPQRSTUVWXYZ'';
          g1 = g0 @ accented_capitals;
          g2 = g1 @ lower g1
      in g2 @ ascii ''1234567890-_.'' @ [223])"

text \<open>
  The class \<^verbatim>\<open>\s\<close> of a \<^verbatim>\<open>str\<close> pattern: the code points for which \<^verbatim>\<open>str.isspace()\<close> holds.
\<close>

definition is_space :: "nat \<Rightarrow> bool" where
  "is_space c \<longleftrightarrow>
     (9 \<le> c \<and> c \<le> 13) \<or> (28 \<le> c \<and> c \<le> 32) \<or> c = 133 \<or> c = 160 \<or> c = 5760 \<or>
     (8192 \<le> c \<and> c \<le> 8202) \<or> c = 8232 \<or> c = 8233 \<or> c = 8239 \<or> c = 8287 \<or> c = 12288"

text \<open>
  \<^verbatim>\<open>re.sub(r"\s+", '_', file_str)\<close>: scanning from the left, each maximal run of whitespace
  is replaced by one underscore (code point 95).
\<close>

function re_sub_ws :: "ustring \<Rightarrow> ustring" where
  "re_sub_ws [] = []"
| "re_sub_ws (c # cs) =
     (if is_space c then 95 # re_sub_ws (dropWhile is_space cs) else c # re_sub_ws cs)"
  by pat_completeness auto
termination
  by (relation "measure length") (auto simp: length_dropWhile_le less_Suc_eq_le)

definition clean_filename :: "ustring \<Rightarrow> ustring" where
  "clean_filename file_str =
     filter (\<lambda>lett. lett \<in> set good_character) (re_sub_ws file_str)"

text \<open>
  The allowed set in the words of the specification: A to Z, a to z, the listed accented
  capitals and their lower-case forms, the digits, and the four characters
  \<^verbatim>\<open>-\<close>, \<^verbatim>\<open>_\<close>, \<^verbatim>\<open>.\<close> and U+00DF.
\<close>

definition spec_allowed :: "nat \<Rightarrow> bool" where
  "spec_allowed c \<longleftrightarrow>
     (65 \<le> c \<and> c \<le> 90) \<or> (97 \<le> c \<and> c \<le> 122) \<or> (48 \<le> c \<and> c \<le> 57) \<or>
     c \<in> {192, 200, 204, 210, 217, 193, 201, 205, 211, 218, 221, 194, 202, 206, 212, 219,
          196, 203, 207, 214, 220, 376, 195, 209, 213, 197, 198, 338, 199, 208, 216} \<or>
     c \<in> {224, 232, 236, 242, 249, 225, 233, 237, 243, 250, 253, 226, 234, 238, 244, 251,
          228, 235, 239, 246, 252, 255, 227, 241, 245, 229, 230, 339, 231, 240, 248} \<or>
     c = 45 \<or> c = 95 \<or> c = 46 \<or> c = 223"

text \<open>The title of the specification's example, \<^verbatim>\<open>Ep. 5: The R\<close> U+00EB \<^verbatim>\<open>turn!\<close>.\<close>

definition example_title :: ustring where
  "example_title =
     [69, 112, 46, 32, 53, 58, 32, 84, 104, 101, 32, 82, 235, 116, 117, 114, 110, 33]"

section \<open>Numbers and dates as text\<close>

text \<open>\<^verbatim>\<open>str(n)\<close> for a non-negative integer: its decimal digits.\<close>

function str_nat :: "nat \<Rightarrow> ustring" where
  "str_nat n = (if n < 10 then [48 + n] else str_nat (n div 10) @ [48 + n mod 10])"
  by pat_completeness auto
termination
  by (relation "measure id") auto

declare str_nat.simps [simp del]

definition zfill :: "nat \<Rightarrow> ustring \<Rightarrow> ustring" where
  "zfill k s = replicate (k - length s) 48 @ s"

text \<open>
  What \<^verbatim>\<open>datetime.strptime\<close> returns for the format of the source, which ends in \<^verbatim>\<open>%z\<close>: an
  aware datetime. Two aware datetimes are ordered by their position on the UTC time line
  (\<open>utc_instant\<close>); \<^verbatim>\<open>strftime\<close> and \<^verbatim>\<open>.year\<close> read the local calendar fields.
\<close>

record datetime =
  utc_instant :: int
  year :: nat
  month :: nat
  day :: nat

text \<open>
  \<^verbatim>\<open>datetime.strftime(date_object, '%Y-%m-%d')\<close>. The year is written as the C library
  writes \<^verbatim>\<open>%Y\<close>; glibc does not pad it, so a year below 1000 has fewer than four digits.
\<close>

definition out_date :: "datetime \<Rightarrow> ustring" where
  "out_date date_object =
     str_nat (year date_object) @ ascii ''-'' @
     zfill 2 (str_nat (month date_object)) @ ascii ''-'' @
     zfill 2 (str_nat (day date_object))"

text \<open>An f-string field holding \<^verbatim>\<open>None\<close> is rendered as the text \<^verbatim>\<open>None\<close>.\<close>

definition fmt :: "ustring option \<Rightarrow> ustring" where
  "fmt v = (case v of None \<Rightarrow> ascii ''None'' | Some s \<Rightarrow> s)"

section \<open>Data\<close>

type_synonym bytes = "nat list"

datatype error =
    AttributeError | TypeError | ValueError | KeyError | IndexError | SyntaxError
  | RegexError | RequestException | UnicodeDecodeError | ParseError
  | FileNotFoundError | IsADirectoryError | FileExistsError | MutagenError

text \<open>
  One \<^verbatim>\<open>item\<close> element, as the \<^verbatim>\<open>ElementTree\<close> queries of the source see it: \<^verbatim>\<open>findtext\<close> of
  a child is \<open>None\<close> when the child is missing; \<^verbatim>\<open>find("pubDate")\<close> is \<open>None\<close> when it is
  missing and its \<^verbatim>\<open>.text\<close> is \<open>None\<close> when it is empty; the attributes of \<^verbatim>\<open>enclosure\<close> and
  of the namespaced image are read with \<^verbatim>\<open>.get\<close>, which gives \<open>None\<close> for a missing one.
\<close>

record enclosure =
  enc_url :: "ustring option"
  enc_type :: "ustring option"

record episode =
  item_title :: "ustring option"
  item_description :: "ustring option"
  item_pubDate :: "ustring option option"
  item_enclosure :: "enclosure option"
  item_image :: "ustring option option"

text \<open>The document root, as the queries of \<^verbatim>\<open>main\<close> see it.\<close>

record feed =
  channel_title :: "ustring option"
  channel_copyright :: "ustring option"
  channel_image_url :: "ustring option option"
  itunes_author :: "ustring option"
  items :: "episode list"

record response =
  content :: bytes
  content_type :: "ustring option"

record podcast =
  name :: ustring
  rssFeedUrl :: ustring
  episodeUrlFilter :: "ustring option"
  artUrlFilter :: "ustring option"

record config =
  outPath :: ustring
  dryRun :: bool
  namespaceRegex :: ustring
  podList :: "podcast list"

record podcast_tags =
  album :: "ustring option"
  art :: bytes
  artMime :: ustring
  artist :: "ustring option"
  album_artist :: "ustring option"
  copyright :: "ustring option"

record podcast_config =
  source :: podcast
  outDir :: ustring
  episodes :: "episode list"
  namespaces :: "ustring \<rightharpoonup> ustring"
  tags0 :: podcast_tags

text \<open>The keys \<^verbatim>\<open>process_podcast\<close> adds to the tag dictionary before it builds the file name.\<close>

record episode_tags =
  title :: "ustring option"
  description :: "ustring option"
  PublicationDate :: "ustring option"
  date :: datetime
  rawURL :: "ustring option"
  extension :: "ustring option"

text \<open>
  The frames \<^verbatim>\<open>process_podcast\<close> sets on the audio file. The constructor of a text frame
  refuses a text that is \<^verbatim>\<open>None\<close>, so a frame that exists holds a string.
\<close>

record frames =
  TRCK :: ustring
  TIT2 :: ustring
  TALB :: ustring
  TCOP :: ustring
  TPE1 :: ustring
  TPE2 :: ustring
  TCON :: ustring
  TDRC :: ustring
  APIC_data :: bytes
  APIC_mime :: ustring

text \<open>
  The libraries the source calls, as parameters of the model:
  \<^item> \<open>http_get\<close>: \<^verbatim>\<open>requests.get\<close>, \<open>None\<close> when it raises;
  \<^item> \<open>re_compile\<close>: whether \<^verbatim>\<open>re.compile(pattern)\<close> returns (it raises \<^verbatim>\<open>re.error\<close> otherwise);
  \<^item> \<open>findall\<close>: \<^verbatim>\<open>re.compile(pattern).findall(text)\<close> for a pattern with at most one
    capturing group: the list holds the group (or the whole match) of every match from left
    to right, and is empty when nothing matches;
  \<^item> \<open>findall2\<close>: \<^verbatim>\<open>re.findall\<close> for the namespace pattern, whose two groups are prefix and URI;
  \<^item> \<open>strptime\<close>: \<^verbatim>\<open>datetime.strptime\<close> with the format of the source, \<open>None\<close> when the text
    does not match it;
  \<^item> \<open>guess_extension\<close>: \<^verbatim>\<open>mimetypes.guess_extension\<close>, \<open>None\<close> for a type without entry;
  \<^item> \<open>decode\<close>: \<^verbatim>\<open>bytes.decode("UTF-8")\<close>, and \<open>fromstring\<close>: \<^verbatim>\<open>ET.fromstring\<close>;
  \<^item> \<open>mutagen_File\<close>: \<^verbatim>\<open>mutagen.File\<close> on the written bytes: \<open>None\<close> when it raises,
    \<open>Some False\<close> when it returns \<^verbatim>\<open>None\<close> (a container it does not recognise), \<open>Some True\<close>
    when it returns a file object;
  \<^item> \<open>tag_save\<close>: the bytes of the file after the frames are set and \<^verbatim>\<open>save()\<close> has run,
    \<open>None\<close> when \<^verbatim>\<open>save()\<close> raises.
\<close>

record env =
  http_get :: "ustring \<Rightarrow> response option"
  re_compile :: "ustring \<Rightarrow> bool"
  findall :: "ustring \<Rightarrow> ustring \<Rightarrow> ustring list"
  findall2 :: "ustring \<Rightarrow> ustring \<Rightarrow> (ustring \<times> ustring) list"
  strptime :: "ustring \<Rightarrow> datetime option"
  guess_extension :: "ustring \<Rightarrow> ustring option"
  decode :: "bytes \<Rightarrow> ustring option"
  fromstring :: "bytes \<Rightarrow> feed option"
  mutagen_File :: "bytes \<Rightarrow> bool option"
  tag_save :: "bytes \<Rightarrow> frames \<Rightarrow> bytes option"

section \<open>The world: files and what a run does\<close>

text \<open>
  The file system maps a path, compared as the text the program builds, to a directory or
  a file. The trace records every network request, every write and every line printed, each
  call site of the source with a constructor of its own.
\<close>

datatype node = Dir | File bytes

datatype message =
    Starting nat ustring
  | WorkingOn "ustring option"
  | NoEpisodeArt
  | Downloading ustring
  | Saving ustring
  | DryRunSleeping
  | Skipping
  | Track nat
  | FileName ustring

datatype event =
    FetchFeed ustring
  | FetchChannelArt ustring
  | FetchEpisodeArt ustring
  | FetchMedia ustring
  | MakeDirs ustring
  | WriteCover ustring
  | WriteEpisode ustring
  | SaveTags ustring
  | Sleep
  | Print message

record world =
  fs :: "ustring \<Rightarrow> node option"
  trace :: "event list"

definition emit :: "event \<Rightarrow> world \<Rightarrow> world" where
  "emit e w = w\<lparr>trace := trace w @ [e]\<rparr>"

definition path_exists :: "world \<Rightarrow> ustring \<Rightarrow> bool" where
  "path_exists w p \<longleftrightarrow> fs w p \<noteq> None"

definition isdir :: "world \<Rightarrow> ustring \<Rightarrow> bool" where
  "isdir w p \<longleftrightarrow> fs w p = Some Dir"

text \<open>
  \<^verbatim>\<open>open(path, 'wb')\<close> and \<^verbatim>\<open>f.write(data)\<close>, for a path directly inside \<open>dir\<close>: the directory
  must exist and the path must not be a directory.
\<close>

definition write_file :: "(ustring \<Rightarrow> event) \<Rightarrow> ustring \<Rightarrow> ustring \<Rightarrow> bytes \<Rightarrow> world \<Rightarrow> error + world" where
  "write_file tag dir path data w =
     (if \<not> isdir w dir then Inl FileNotFoundError
      else if isdir w path then Inl IsADirectoryError
      else Inr (emit (tag path) (w\<lparr>fs := (fs w)(path \<mapsto> File data)\<rparr>)))"

text \<open>\<^verbatim>\<open>os.makedirs(path, exist_ok = True)\<close>, called when \<open>path\<close> is not a directory.\<close>

definition makedirs :: "ustring \<Rightarrow> world \<Rightarrow> error + world" where
  "makedirs path w =
     (case fs w path of
        Some (File _) \<Rightarrow> Inl FileExistsError
      | _ \<Rightarrow> Inr (emit (MakeDirs path) (w\<lparr>fs := (fs w)(path \<mapsto> Dir)\<rparr>)))"

text \<open>\<^verbatim>\<open>requests.get(url, timeout=...)\<close>; a URL that is \<^verbatim>\<open>None\<close> is refused before any request.\<close>

definition requests_get ::
  "env \<Rightarrow> (ustring \<Rightarrow> event) \<Rightarrow> ustring option \<Rightarrow> world \<Rightarrow> world \<times> (error + response)" where
  "requests_get env tag url w =
     (case url of
        None \<Rightarrow> (w, Inl RequestException)
      | Some u \<Rightarrow>
          (emit (tag u) w,
           case http_get env u of None \<Rightarrow> Inl RequestException | Some r \<Rightarrow> Inr r))"

text \<open>
  A \<^verbatim>\<open>for\<close> loop whose body may raise: the first exception ends the loop, and the world
  stays as the failing iteration left it.
\<close>

fun for_each ::
  "('a \<Rightarrow> world \<Rightarrow> world \<times> error option) \<Rightarrow> 'a list \<Rightarrow> world \<Rightarrow> world \<times> error option" where
  "for_each body [] w = (w, None)"
| "for_each body (x # xs) w =
     (case body x w of
        (w', Some e) \<Rightarrow> (w', Some e)
      | (w', None) \<Rightarrow> for_each body xs w')"

section \<open>The functions of the source\<close>

definition extract_date :: "env \<Rightarrow> episode \<Rightarrow> error + datetime" where
  "extract_date env episode_obj =
     (case item_pubDate episode_obj of
        None \<Rightarrow> Inl AttributeError
      | Some None \<Rightarrow> Inl TypeError
      | Some (Some date_str) \<Rightarrow>
          (case strptime env date_str of None \<Rightarrow> Inl ValueError | Some d \<Rightarrow> Inr d))"

text \<open>\<^verbatim>\<open>open(xml_location, encoding='utf-8')\<close> and \<^verbatim>\<open>read()\<close>: the text of a local file.\<close>

definition read_text :: "env \<Rightarrow> world \<Rightarrow> ustring \<Rightarrow> error + ustring" where
  "read_text env w path =
     (case fs w path of
        None \<Rightarrow> Inl FileNotFoundError
      | Some Dir \<Rightarrow> Inl IsADirectoryError
      | Some (File b) \<Rightarrow>
          (case decode env b of None \<Rightarrow> Inl UnicodeDecodeError | Some text \<Rightarrow> Inr text))"

text \<open>The dictionary comprehension over the matches: a later pair replaces an earlier one.\<close>

definition ns_dict :: "(ustring \<times> ustring) list \<Rightarrow> (ustring \<rightharpoonup> ustring)" where
  "ns_dict pairs = fold (\<lambda>x m. m(fst x \<mapsto> snd x)) pairs Map.empty"

text \<open>
  \<^verbatim>\<open>get_rss\<close>. In the first branch \<^verbatim>\<open>xml\<close> is the \<^verbatim>\<open>bytes\<close> of the response. In the second it
  is the \<^verbatim>\<open>str\<close> that \<^verbatim>\<open>read()\<close> of a text-mode file returns, and line 86 calls
  \<^verbatim>\<open>xml.decode("UTF-8")\<close> on it: a \<^verbatim>\<open>str\<close> has no \<^verbatim>\<open>decode\<close>, which is an \<^verbatim>\<open>AttributeError\<close>.
\<close>

definition get_rss ::
  "env \<Rightarrow> config \<Rightarrow> ustring \<Rightarrow> world \<Rightarrow> world \<times> (error + bytes \<times> (ustring \<rightharpoonup> ustring))" where
  "get_rss env cfg xml_location w =
     (if take 4 xml_location = ascii ''http'' then
        (case requests_get env FetchFeed (Some xml_location) w of
           (w', Inl e) \<Rightarrow> (w', Inl e)
         | (w', Inr r) \<Rightarrow>
             (case decode env (content r) of
                None \<Rightarrow> (w', Inl UnicodeDecodeError)
              | Some text \<Rightarrow>
                  (w', Inr (content r, ns_dict (findall2 env (namespaceRegex cfg) text)))))
      else
        (case read_text env w xml_location of
           Inl e \<Rightarrow> (w, Inl e)
         | Inr xml \<Rightarrow> (w, Inl AttributeError)))"

text \<open>
  \<^verbatim>\<open>sorted(episode_list, key=extract_date)\<close>: the keys are computed first, from left to
  right, and the first one that raises ends the call; the sort is stable.
\<close>

fun keyed :: "env \<Rightarrow> episode list \<Rightarrow> error + (datetime \<times> episode) list" where
  "keyed env [] = Inr []"
| "keyed env (e # es) =
     (case extract_date env e of
        Inl x \<Rightarrow> Inl x
      | Inr d \<Rightarrow> (case keyed env es of Inl x \<Rightarrow> Inl x | Inr ks \<Rightarrow> Inr ((d, e) # ks)))"

definition date_sort :: "env \<Rightarrow> episode list \<Rightarrow> error + episode list" where
  "date_sort env episode_list =
     (case keyed env episode_list of
        Inl x \<Rightarrow> Inl x
      | Inr ks \<Rightarrow> Inr (map snd (sort_key (\<lambda>k. utc_instant (fst k)) ks)))"

text \<open>
  Lines 192 to 196 and 209 to 213: \<^verbatim>\<open>KeyError\<close>, the filter missing from the configuration,
  is the one exception caught. \<^verbatim>\<open>findall\<close> of a URL that is \<^verbatim>\<open>None\<close> is a \<^verbatim>\<open>TypeError\<close>, and
  \<^verbatim>\<open>[0]\<close> of an empty list of matches an \<^verbatim>\<open>IndexError\<close>.
\<close>

definition resolve_url :: "env \<Rightarrow> ustring option \<Rightarrow> ustring option \<Rightarrow> error + ustring option" where
  "resolve_url env url_filter raw =
     (case url_filter of
        None \<Rightarrow> Inr raw
      | Some pattern \<Rightarrow>
          if \<not> re_compile env pattern then Inl RegexError
          else (case raw of
                  None \<Rightarrow> Inl TypeError
                | Some u \<Rightarrow>
                    (case findall env pattern u of
                       [] \<Rightarrow> Inl IndexError
                     | g # _ \<Rightarrow> Inr (Some g))))"

text \<open>Lines 170 to 178 of \<^verbatim>\<open>process_podcast\<close>.\<close>

definition read_tags :: "env \<Rightarrow> episode \<Rightarrow> error + episode_tags" where
  "read_tags env episode =
     (case extract_date env episode of
        Inl e \<Rightarrow> Inl e
      | Inr d \<Rightarrow>
          (case item_enclosure episode of
             None \<Rightarrow> Inl AttributeError
           | Some enc \<Rightarrow>
               (case enc_type enc of
                  None \<Rightarrow> Inl AttributeError
                | Some ty \<Rightarrow>
                    Inr \<lparr>title = item_title episode,
                         description = item_description episode,
                         PublicationDate =
                           (case item_pubDate episode of
                              None \<Rightarrow> None | Some None \<Rightarrow> Some [] | Some (Some t) \<Rightarrow> Some t),
                         date = d,
                         rawURL = enc_url enc,
                         extension = guess_extension env ty\<rparr>)))"

text \<open>Lines 182 to 189: the file name and the destination path.\<close>

definition filename_of :: "nat \<Rightarrow> episode_tags \<Rightarrow> ustring" where
  "filename_of episode_number tags =
     clean_filename
       (out_date (date tags) @ ascii ''_ep'' @ str_nat episode_number @ ascii ''_'' @
        fmt (title tags) @ fmt (extension tags))"

definition derive_path :: "env \<Rightarrow> podcast_config \<Rightarrow> nat \<Rightarrow> episode \<Rightarrow> error + ustring" where
  "derive_path env pc episode_number episode =
     (case read_tags env episode of
        Inl e \<Rightarrow> Inl e
      | Inr tags \<Rightarrow> Inr (outDir pc @ filename_of episode_number tags))"

definition truthy :: "ustring option \<Rightarrow> bool" where
  "truthy u \<longleftrightarrow> u \<noteq> None \<and> u \<noteq> Some []"

text \<open>
  Lines 200 to 219: the artwork of the episode. The namespaced lookup raises \<^verbatim>\<open>SyntaxError\<close>
  for a prefix missing from the namespace mapping; a missing element is the
  \<^verbatim>\<open>AttributeError\<close> that is caught.
\<close>

definition episode_art ::
  "env \<Rightarrow> podcast_config \<Rightarrow> episode \<Rightarrow> world \<Rightarrow> world \<times> (error + bytes \<times> ustring)" where
  "episode_art env pc episode w =
     (if namespaces pc (ascii ''itunes'') = None then (w, Inl SyntaxError)
      else
        let w1 = (case item_image episode of None \<Rightarrow> emit (Print NoEpisodeArt) w | Some _ \<Rightarrow> w);
            episode_art_url = (case item_image episode of None \<Rightarrow> None | Some href \<Rightarrow> href)
        in if truthy episode_art_url then
             (case resolve_url env (artUrlFilter (source pc)) episode_art_url of
                Inl e \<Rightarrow> (w1, Inl e)
              | Inr processed_art_url \<Rightarrow>
                  (case requests_get env FetchEpisodeArt processed_art_url w1 of
                     (w2, Inl e) \<Rightarrow> (w2, Inl e)
                   | (w2, Inr eart) \<Rightarrow>
                       (case content_type eart of
                          None \<Rightarrow> (w2, Inl KeyError)
                        | Some mime \<Rightarrow> (w2, Inr (content eart, mime)))))
           else (w1, Inr (art (tags0 pc), artMime (tags0 pc))))"

text \<open>
  The frames of lines 243 to 256. A text that is \<^verbatim>\<open>None\<close> (a title, channel title,
  copyright or author missing from the feed) makes the frame's constructor raise
  \<^verbatim>\<open>ValueError\<close>: then there are no frames.
\<close>

definition frames_of ::
  "podcast_config \<Rightarrow> nat \<Rightarrow> episode_tags \<Rightarrow> bytes \<Rightarrow> ustring \<Rightarrow> frames option" where
  "frames_of pc episode_number tags art_data art_mime =
     (case title tags of None \<Rightarrow> None | Some tit2 \<Rightarrow>
      case album (tags0 pc) of None \<Rightarrow> None | Some talb \<Rightarrow>
      case copyright (tags0 pc) of None \<Rightarrow> None | Some tcop \<Rightarrow>
      case artist (tags0 pc) of None \<Rightarrow> None | Some tpe1 \<Rightarrow>
      case album_artist (tags0 pc) of None \<Rightarrow> None | Some tpe2 \<Rightarrow>
        Some \<lparr>TRCK = str_nat episode_number,
              TIT2 = tit2,
              TALB = talb,
              TCOP = tcop,
              TPE1 = tpe1,
              TPE2 = tpe2,
              TCON = ascii ''Podcast'',
              TDRC = str_nat (year (date tags)),
              APIC_data = art_data,
              APIC_mime = art_mime\<rparr>)"

text \<open>
  Lines 233 to 265, on the file just written. When \<^verbatim>\<open>mutagen.File\<close> returned \<^verbatim>\<open>None\<close> the
  first item assignment, line 243, is a \<^verbatim>\<open>TypeError\<close>. Whatever raises, the file stays as
  it was written.
\<close>

definition update_metadata ::
  "env \<Rightarrow> podcast_config \<Rightarrow> nat \<Rightarrow> episode_tags \<Rightarrow> bytes \<times> ustring \<Rightarrow> bytes \<Rightarrow> ustring
     \<Rightarrow> world \<Rightarrow> world \<times> error option" where
  "update_metadata env pc episode_number tags a data full_path w =
     (case mutagen_File env data of
        None \<Rightarrow> (w, Some MutagenError)
      | Some False \<Rightarrow> (w, Some TypeError)
      | Some True \<Rightarrow>
          (case frames_of pc episode_number tags (fst a) (snd a) of
             None \<Rightarrow> (w, Some ValueError)
           | Some fr \<Rightarrow>
               (case tag_save env data fr of
                  None \<Rightarrow> (w, Some MutagenError)
                | Some tagged \<Rightarrow>
                    (emit (SaveTags full_path)
                       (w\<lparr>fs := (fs w)(full_path \<mapsto> File tagged)\<rparr>), None))))"

text \<open>Lines 199 to 265: the branch that downloads, writes and tags.\<close>

definition download ::
  "env \<Rightarrow> podcast_config \<Rightarrow> nat \<Rightarrow> episode \<Rightarrow> episode_tags \<Rightarrow> ustring option \<Rightarrow> world
     \<Rightarrow> world \<times> error option" where
  "download env pc episode_number episode tags processed_url w =
     (let filename = filename_of episode_number tags;
          full_path = outDir pc @ filename
      in case episode_art env pc episode w of
           (w1, Inl e) \<Rightarrow> (w1, Some e)
         | (w1, Inr a) \<Rightarrow>
             (case requests_get env FetchMedia processed_url
                     (emit (Print (Downloading filename)) w1) of
                (w2, Inl e) \<Rightarrow> (w2, Some e)
              | (w2, Inr html) \<Rightarrow>
                  (case write_file WriteEpisode (outDir pc) full_path (content html)
                          (emit (Print (Saving filename)) w2) of
                     Inl e \<Rightarrow> (emit (Print (Saving filename)) w2, Some e)
                   | Inr w3 \<Rightarrow>
                       update_metadata env pc episode_number tags a (content html)
                         full_path w3)))"

definition process_podcast ::
  "env \<Rightarrow> config \<Rightarrow> podcast_config \<Rightarrow> nat \<times> episode \<Rightarrow> world \<Rightarrow> world \<times> error option" where
  "process_podcast env cfg pc ie w =
     (let episode_number = fst ie; episode = snd ie
      in case read_tags env episode of
           Inl e \<Rightarrow> (w, Some e)
         | Inr tags \<Rightarrow>
             (let w1 = emit (Print (WorkingOn (title tags))) w;
                  filename = filename_of episode_number tags;
                  full_path = outDir pc @ filename
              in case resolve_url env (episodeUrlFilter (source pc)) (rawURL tags) of
                   Inl e \<Rightarrow> (w1, Some e)
                 | Inr processed_url \<Rightarrow>
                     if \<not> path_exists w1 full_path \<and> \<not> dryRun cfg then
                       download env pc episode_number episode tags processed_url w1
                     else if dryRun cfg then
                       (emit Sleep (emit (Print DryRunSleeping) w1), None)
                     else
                       (emit (Print (FileName filename))
                          (emit (Print (Track episode_number))
                             (emit (Print Skipping) w1)), None)))"

text \<open>Lines 282 to 315 of \<^verbatim>\<open>main\<close>: what is done for a source before its episodes.\<close>

definition setup_source ::
  "env \<Rightarrow> config \<Rightarrow> nat \<times> podcast \<Rightarrow> world \<Rightarrow> world \<times> (error + podcast_config)" where
  "setup_source env cfg ip w =
     (let pod = snd ip;
          w1 = emit (Print (Starting (fst ip + 1) (name pod))) w;
          out_dir = outPath cfg @ name pod @ ascii ''/''
      in case (if \<not> isdir w1 out_dir then makedirs out_dir w1 else Inr w1) of
           Inl e \<Rightarrow> (w1, Inl e)
         | Inr w2 \<Rightarrow>
             (case get_rss env cfg (rssFeedUrl pod) w2 of
                (w3, Inl e) \<Rightarrow> (w3, Inl e)
              | (w3, Inr xn) \<Rightarrow>
                  (case fromstring env (fst xn) of
                     None \<Rightarrow> (w3, Inl ParseError)
                   | Some root \<Rightarrow>
                       (case channel_image_url root of
                          None \<Rightarrow> (w3, Inl AttributeError)
                        | Some url \<Rightarrow>
                            (case requests_get env FetchChannelArt url w3 of
                               (w4, Inl e) \<Rightarrow> (w4, Inl e)
                             | (w4, Inr r) \<Rightarrow>
                                 (case date_sort env (items root) of
                                    Inl e \<Rightarrow> (w4, Inl e)
                                  | Inr eps \<Rightarrow>
                                      (case content_type r of
                                         None \<Rightarrow> (w4, Inl KeyError)
                                       | Some mime \<Rightarrow>
                                           if snd xn (ascii ''itunes'') = None
                                           then (w4, Inl SyntaxError)
                                           else
                                             (let out_path = out_dir @ ascii ''cover'' @
                                                    fmt (guess_extension env mime)
                                              in case write_file WriteCover out_dir out_path
                                                        (content r) w4 of
                                                   Inl e \<Rightarrow> (w4, Inl e)
                                                 | Inr w5 \<Rightarrow>
                                                     (w5, Inr
                                                       \<lparr>source = pod,
                                                        outDir = out_dir,
                                                        episodes = eps,
                                                        namespaces = snd xn,
                                                        tags0 =
                                                          \<lparr>album = channel_title root,
                                                           art = content r,
                                                           artMime = mime,
                                                           artist = itunes_author root,
                                                           album_artist = channel_title root,
                                                           copyright = channel_copyright root\<rparr>\<rparr>)))))))))"

text \<open>Lines 318 and 319: the episodes in sorted order, numbered from 1.\<close>

definition process_source :: "env \<Rightarrow> config \<Rightarrow> nat \<times> podcast \<Rightarrow> world \<Rightarrow> world \<times> error option" where
  "process_source env cfg ip w =
     (case setup_source env cfg ip w of
        (w', Inl e) \<Rightarrow> (w', Some e)
      | (w', Inr pc) \<Rightarrow>
          for_each (process_podcast env cfg pc) (List.enumerate 1 (episodes pc)) w')"

definition main :: "env \<Rightarrow> config \<Rightarrow> world \<Rightarrow> world \<times> error option" where
  "main env cfg w = for_each (process_source env cfg) (List.enumerate 0 (podList cfg)) w"

section \<open>Comparing worlds and traces\<close>

text \<open>
  What the statements about whole runs speak of: the kind of a path (absent, directory or
  file); one world extending another when every path of the first is still there with its
  kind; the events that are network requests or writes of an episode; and the relation
  between the worlds before and after a repeated run, with the events \<open>t\<close> it adds.
\<close>

definition kind_of :: "node option \<Rightarrow> nat" where
  "kind_of n = (case n of None \<Rightarrow> 0 | Some Dir \<Rightarrow> 1 | Some (File _) \<Rightarrow> 2)"

definition extends :: "world \<Rightarrow> world \<Rightarrow> bool" where
  "extends w v \<longleftrightarrow> (\<forall>p. fs w p \<noteq> None \<longrightarrow> kind_of (fs v p) = kind_of (fs w p))"

definition episode_io :: "event \<Rightarrow> bool" where
  "episode_io e =
     (case e of
        FetchEpisodeArt _ \<Rightarrow> True | FetchMedia _ \<Rightarrow> True
      | WriteEpisode _ \<Rightarrow> True | SaveTags _ \<Rightarrow> True | _ \<Rightarrow> False)"

definition is_print :: "event \<Rightarrow> bool" where
  "is_print e = (case e of Print _ \<Rightarrow> True | _ \<Rightarrow> False)"

definition is_working :: "event \<Rightarrow> bool" where
  "is_working e = (case e of Print (WorkingOn _) \<Rightarrow> True | _ \<Rightarrow> False)"

definition rerun :: "world \<Rightarrow> world \<Rightarrow> event list \<Rightarrow> bool" where
  "rerun v v' t \<longleftrightarrow>
     trace v' = trace v @ t
     \<and> (\<forall>e\<in>set t. \<not> episode_io e)
     \<and> (\<forall>p. kind_of (fs v' p) = kind_of (fs v p))
     \<and> (\<forall>p. WriteCover p \<notin> set t \<longrightarrow> fs v' p = fs v p)
     \<and> length (filter (\<lambda>e. e = Print Skipping) t) = length (filter is_working t)"

definition skip_events :: "nat \<times> episode \<Rightarrow> episode_tags \<Rightarrow> event list" where
  "skip_events ie tags =
     [Print (WorkingOn (title tags)), Print Skipping, Print (Track (fst ie)),
      Print (FileName (filename_of (fst ie) tags))]"

definition dry_events :: "nat \<times> episode \<Rightarrow> event list" where
  "dry_events ie = [Print (WorkingOn (item_title (snd ie))), Print DryRunSleeping, Sleep]"

definition source_dir :: "config \<Rightarrow> nat \<times> podcast \<Rightarrow> ustring" where
  "source_dir cfg ip = outPath cfg @ name (snd ip) @ ascii ''/''"

section \<open>A concrete run\<close>

text \<open>
  One feed with three items out of order (10 January, 1 March and 15 February 2023), the
  second of them with a media type that has no extension, and the answers the libraries
  give on it, as tables. The examples of the theorems below are evaluated on it.
\<close>

definition demo_feed_url :: ustring where
  "demo_feed_url = ascii ''http://feeds.example/pod.xml''"

definition demo_feed_bytes :: bytes where
  "demo_feed_bytes =
     ascii ''<rss xmlns:itunes='' @ [34] @ ascii ''http://www.itunes.com/dtds/podcast-1.0.dtd'' @
     [34] @ ascii ''>''"

definition ep_jan :: episode where
  "ep_jan = \<lparr>item_title = Some (ascii ''Pilot''), item_description = None,
     item_pubDate = Some (Some (ascii ''Tue, 10 Jan 2023 08:00:00 +0000'')),
     item_enclosure = Some \<lparr>enc_url = Some (ascii ''http://media.example/1.mp3''),
                             enc_type = Some (ascii ''audio/mpeg'')\<rparr>,
     item_image = None\<rparr>"

definition ep_mar :: episode where
  "ep_mar = \<lparr>item_title = Some (ascii ''Third''), item_description = None,
     item_pubDate = Some (Some (ascii ''Wed, 01 Mar 2023 08:00:00 +0000'')),
     item_enclosure = Some \<lparr>enc_url = Some (ascii ''http://media.example/3.mp3''),
                             enc_type = Some (ascii ''audio/mpeg'')\<rparr>,
     item_image = Some (Some (ascii ''http://img.example/e3.jpg''))\<rparr>"

definition ep_feb :: episode where
  "ep_feb = \<lparr>item_title = Some (ascii ''Second''), item_description = None,
     item_pubDate = Some (Some (ascii ''Wed, 15 Feb 2023 08:00:00 +0000'')),
     item_enclosure = Some \<lparr>enc_url = Some (ascii ''http://media.example/2.mp3''),
                             enc_type = Some (ascii ''audio/x-unknown'')\<rparr>,
     item_image = None\<rparr>"

definition demo_feed :: feed where
  "demo_feed = \<lparr>channel_title = Some (ascii ''Pod''), channel_copyright = Some (ascii ''CC0''),
     channel_image_url = Some (Some (ascii ''http://img.example/c.jpg'')),
     itunes_author = Some (ascii ''Ann''),
     items = [ep_jan, ep_mar, ep_feb]\<rparr>"

definition demo_pattern :: ustring where
  "demo_pattern = ascii ''^(https://cdn[.]example/[^?]*)''"

definition demo_env :: env where
  "demo_env =
     \<lparr>http_get = (\<lambda>u.
        if u = demo_feed_url then
          Some \<lparr>content = demo_feed_bytes, content_type = Some (ascii ''application/rss+xml'')\<rparr>
        else if u = ascii ''http://img.example/c.jpg'' then
          Some \<lparr>content = [1], content_type = Some (ascii ''image/jpeg'')\<rparr>
        else if u = ascii ''http://img.example/e3.jpg'' then
          Some \<lparr>content = [3], content_type = Some (ascii ''image/jpeg'')\<rparr>
        else if u = ascii ''http://media.example/1.mp3'' then
          Some \<lparr>content = [11], content_type = Some (ascii ''audio/mpeg'')\<rparr>
        else if u = ascii ''http://media.example/2.mp3'' then
          Some \<lparr>content = [12], content_type = Some (ascii ''audio/x-unknown'')\<rparr>
        else if u = ascii ''http://media.example/3.mp3'' then
          Some \<lparr>content = [13], content_type = Some (ascii ''audio/mpeg'')\<rparr>
        else None),
      re_compile = (\<lambda>p. True),
      findall = (\<lambda>p s.
        if p = demo_pattern \<and> s = ascii ''https://cdn.example/a.mp3?track=1''
        then [ascii ''https://cdn.example/a.mp3''] else []),
      findall2 = (\<lambda>p s.
        if s = demo_feed_bytes
        then [(ascii ''itunes'', ascii ''http://www.itunes.com/dtds/podcast-1.0.dtd'')] else []),
      strptime = (\<lambda>s.
        if s = ascii ''Tue, 10 Jan 2023 08:00:00 +0000'' then
          Some \<lparr>utc_instant = 1673337600, year = 2023, month = 1, day = 10\<rparr>
        else if s = ascii ''Wed, 01 Mar 2023 08:00:00 +0000'' then
          Some \<lparr>utc_instant = 1677657600, year = 2023, month = 3, day = 1\<rparr>
        else if s = ascii ''Wed, 15 Feb 2023 08:00:00 +0000'' then
          Some \<lparr>utc_instant = 1676448000, year = 2023, month = 2, day = 15\<rparr>
        else None),
      guess_extension = (\<lambda>t.
        if t = ascii ''audio/mpeg'' then Some (ascii ''.mp3'')
        else if t = ascii ''image/jpeg'' then Some (ascii ''.jpg'')
        else None),
      decode = (\<lambda>b. if list_all (\<lambda>c. c < 128) b then Some b else None),
      fromstring = (\<lambda>b. if b = demo_feed_bytes then Some demo_feed else None),
      mutagen_File = (\<lambda>b. Some True),
      tag_save = (\<lambda>b f. Some (b @ APIC_data f))\<rparr>"

definition demo_pod :: podcast where
  "demo_pod = \<lparr>name = ascii ''Pod'', rssFeedUrl = demo_feed_url,
                episodeUrlFilter = None, artUrlFilter = None\<rparr>"

definition demo_cfg :: config where
  "demo_cfg = \<lparr>outPath = ascii ''out/'', dryRun = False,
     namespaceRegex = ascii ''xmlns:([a-z]+)=.([^ >]+).>'',
     podList = [demo_pod]\<rparr>"

definition empty_world :: world where
  "empty_world = \<lparr>fs = Map.empty, trace = []\<rparr>"

definition demo_pc :: podcast_config where
  "demo_pc =
     \<lparr>source = demo_pod,
      outDir = ascii ''out/Pod/'',
      episodes = [ep_jan, ep_feb, ep_mar],
      namespaces = ns_dict [(ascii ''itunes'', ascii ''http://www.itunes.com/dtds/podcast-1.0.dtd'')],
      tags0 = \<lparr>album = Some (ascii ''Pod''), art = [1], artMime = ascii ''image/jpeg'',
                artist = Some (ascii ''Ann''), album_artist = Some (ascii ''Pod''),
                copyright = Some (ascii ''CC0'')\<rparr>\<rparr>"

definition local_world :: world where
  "local_world = \<lparr>fs = [ascii ''feed.xml'' \<mapsto> File demo_feed_bytes], trace = []\<rparr>"

text \<open>The same libraries, but the request for the media of the first episode fails.\<close>

definition flaky_env :: env where
  "flaky_env = demo_env\<lparr>http_get := (\<lambda>u.
      if u = ascii ''http://media.example/1.mp3'' then None else http_get demo_env u)\<rparr>"

definition flaky_w0 :: world where
  "flaky_w0 = fst (setup_source flaky_env demo_cfg (0, demo_pod) empty_world)"

definition flaky_w2 :: world where
  "flaky_w2 = fst (process_podcast flaky_env demo_cfg demo_pc (1, ep_jan) flaky_w0)"

text \<open>The source of the example with a media filter that matches none of its URLs.\<close>

definition filtered_pc :: podcast_config where
  "filtered_pc = demo_pc\<lparr>source := demo_pod\<lparr>episodeUrlFilter := Some demo_pattern\<rparr>\<rparr>"

text \<open>The world after the setup of the source of the example.\<close>

definition demo_w0 :: world where
  "demo_w0 = fst (setup_source demo_env demo_cfg (0, demo_pod) empty_world)"

text \<open>A world in which the file of the February episode is already there.\<close>

definition feb_world :: world where
  "feb_world =
     \<lparr>fs = [ascii ''out/Pod/2023-02-15_ep2_SecondNone'' \<mapsto> File [12]], trace = []\<rparr>"

section \<open>The sanitizer\<close>

lemma good_character_parts:
  "good_character =
     ascii ''ABCDEFGHIJKLMNOPQRSTUVWXYZ'' @ accented_capitals @
     ascii ''abcdefghijklmnopqrstuvwxyz'' @
     [224, 232, 236, 242, 249, 225, 233, 237, 243, 250, 253, 226, 234, 238, 244, 251,
      228, 235, 239, 246, 252, 255, 227, 241, 245, 229, 230, 339, 231, 240, 248] @
     ascii ''1234567890-_.'' @ [223]"
  by (simp add: good_character_def ascii_def lower_def lower_cp_def accented_capitals_def)

lemmas good_character_eval = good_character_parts ascii_def accented_capitals_def

lemma good_character_all_allowed: "list_all spec_allowed good_character"
  unfolding good_character_eval by (simp add: spec_allowed_def)

lemma good_character_no_space: "list_all (\<lambda>c. \<not> is_space c) good_character"
  unfolding good_character_eval by (simp add: is_space_def)

lemma capitals_good: "65 \<le> c \<Longrightarrow> c \<le> 90 \<Longrightarrow> c \<in> set good_character"
  unfolding good_character_eval by (simp; arith)

lemma smalls_good: "97 \<le> c \<Longrightarrow> c \<le> 122 \<Longrightarrow> c \<in> set good_character"
  unfolding good_character_eval by (simp; arith)

lemma digits_good: "48 \<le> c \<Longrightarrow> c \<le> 57 \<Longrightarrow> c \<in> set good_character"
  unfolding good_character_eval by (simp; arith)

lemma allowed_is_good: "spec_allowed c \<Longrightarrow> c \<in> set good_character"
  unfolding spec_allowed_def
  apply (elim disjE)
        apply (erule conjE, erule (1) capitals_good)
       apply (erule conjE, erule (1) smalls_good)
      apply (erule conjE, erule (1) digits_good)
     apply (simp_all add: good_character_eval)
   apply (elim disjE; simp)+
  done

lemma good_character_iff: "c \<in> set good_character \<longleftrightarrow> spec_allowed c"
  using good_character_all_allowed allowed_is_good by (auto simp: list_all_iff)

lemma allowed_not_space: "spec_allowed c \<Longrightarrow> \<not> is_space c"
  using good_character_no_space allowed_is_good by (auto simp: list_all_iff)

lemma re_sub_ws_no_space: "\<forall>c\<in>set s. \<not> is_space c \<Longrightarrow> re_sub_ws s = s"
  by (induction s) auto

text \<open>A string that does not end in whitespace is substituted independently of what follows.\<close>

lemma re_sub_ws_append:
  "xs = [] \<or> \<not> is_space (last xs) \<Longrightarrow> re_sub_ws (xs @ zs) = re_sub_ws xs @ re_sub_ws zs"
proof (induction xs rule: re_sub_ws.induct)
  case 1
  show ?case by simp
next
  case (2 c cs)
  show ?case
  proof (cases "is_space c")
    case False
    with 2 show ?thesis by (cases "cs = []") auto
  next
    case True
    with "2.prems" have ne: "cs \<noteq> []" and lst: "\<not> is_space (last cs)"
      by (auto split: if_splits)
    then have mem: "last cs \<in> set cs" by simp
    have dw: "dropWhile is_space (cs @ zs) = dropWhile is_space cs @ zs"
      using mem lst by (simp add: dropWhile_append1)
    have dl: "last (dropWhile is_space cs) = last cs"
      using mem lst by (rule dropWhile_last)
    have "re_sub_ws (dropWhile is_space cs @ zs)
            = re_sub_ws (dropWhile is_space cs) @ re_sub_ws zs"
      using "2.IH"(1)[OF True] dl lst by simp
    with True dw show ?thesis by simp
  qed
qed

text \<open>A whole run of whitespace, followed by something else or by nothing, gives one underscore.\<close>

lemma re_sub_ws_run:
  assumes "ws \<noteq> []" and "\<forall>c\<in>set ws. is_space c" and "ys = [] \<or> \<not> is_space (hd ys)"
  shows "re_sub_ws (ws @ ys) = 95 # re_sub_ws ys"
proof -
  from assms(1) obtain w ws' where ws: "ws = w # ws'" by (cases ws) auto
  with assms(2) have w: "is_space w" and ws': "\<forall>c\<in>set ws'. is_space c" by auto
  have "dropWhile is_space (ws' @ ys) = dropWhile is_space ys"
    using ws' by (simp add: dropWhile_append2)
  also have "\<dots> = ys" using assms(3) by (cases ys) auto
  finally show ?thesis using w ws by simp
qed

lemma clean_filename_allowed: "c \<in> set (clean_filename s) \<Longrightarrow> spec_allowed c"
  by (simp add: clean_filename_def good_character_iff)

lemma str_nat_digit: "n < 10 \<Longrightarrow> str_nat n = [48 + n]"
  by (simp add: str_nat.simps)

lemma str_nat_more: "10 \<le> n \<Longrightarrow> str_nat n = str_nat (n div 10) @ [48 + n mod 10]"
  by (subst str_nat.simps) simp

text \<open>
  C6. For every input string, \<^verbatim>\<open>clean_filename\<close> first replaces each run of whitespace by
  one underscore and then drops every character outside the allowed set of the
  specification, so that its result holds allowed characters only and no whitespace. The
  substitution is described by two facts: a string without whitespace is left as it is, and
  a maximal run \<open>ws\<close> of whitespace between \<open>xs\<close> and \<open>ys\<close> becomes a single underscore
  between their substituted forms.
\<close>

theorem clean_filename_sanitizes:
  "clean_filename s = filter spec_allowed (re_sub_ws s)
   \<and> ((\<forall>c\<in>set s. \<not> is_space c) \<longrightarrow> re_sub_ws s = s)
   \<and> (ws \<noteq> [] \<and> (\<forall>c\<in>set ws. is_space c) \<and> (xs = [] \<or> \<not> is_space (last xs))
        \<and> (ys = [] \<or> \<not> is_space (hd ys))
        \<longrightarrow> re_sub_ws (xs @ ws @ ys) = re_sub_ws xs @ 95 # re_sub_ws ys)
   \<and> (\<forall>c\<in>set (clean_filename s). spec_allowed c \<and> \<not> is_space c)"
proof (intro conjI impI)
  show "clean_filename s = filter spec_allowed (re_sub_ws s)"
    unfolding clean_filename_def by (rule filter_cong) (simp_all add: good_character_iff)
  show "re_sub_ws s = s" if "\<forall>c\<in>set s. \<not> is_space c"
    using that by (rule re_sub_ws_no_space)
  show "re_sub_ws (xs @ ws @ ys) = re_sub_ws xs @ 95 # re_sub_ws ys"
    if "ws \<noteq> [] \<and> (\<forall>c\<in>set ws. is_space c) \<and> (xs = [] \<or> \<not> is_space (last xs))
        \<and> (ys = [] \<or> \<not> is_space (hd ys))"
    using that by (simp add: re_sub_ws_append re_sub_ws_run del: re_sub_ws.simps)
  show "\<forall>c\<in>set (clean_filename s). spec_allowed c \<and> \<not> is_space c"
    using clean_filename_allowed allowed_not_space by blast
qed

theorem clean_filename_sanitizes_witness:
  "clean_filename [97, 32, 9, 33, 98] = filter spec_allowed (re_sub_ws [97, 32, 9, 33, 98])
   \<and> re_sub_ws [97, 33, 98] = [97, 33, 98]
   \<and> re_sub_ws ([97] @ [32, 9] @ [33, 98]) = re_sub_ws [97] @ 95 # re_sub_ws [33, 98]
   \<and> clean_filename [97, 32, 9, 33, 98] = [97, 95, 98]
   \<and> spec_allowed 97 \<and> spec_allowed 95 \<and> spec_allowed 98
   \<and> \<not> is_space 97 \<and> \<not> is_space 95 \<and> \<not> is_space 98"
proof -
  have sp: "is_space 32" "is_space 9" "\<not> is_space 97" "\<not> is_space 33" "\<not> is_space 98"
    by (simp_all add: is_space_def)
  have ev: "clean_filename [97, 32, 9, 33, 98] = [97, 95, 98]"
    by (simp add: clean_filename_def sp good_character_eval)
  note t = clean_filename_sanitizes [of "[97, 32, 9, 33, 98]" "[32, 9]" "[97]" "[33, 98]"]
  note u = clean_filename_sanitizes [of "[97, 33, 98]" "[32, 9]" "[97]" "[33, 98]"]
  have h1: "\<forall>c\<in>set [97, 33, 98]. \<not> is_space c" by (simp add: sp)
  have h2: "[32, 9] \<noteq> [] \<and> (\<forall>c\<in>set [32, 9]. is_space c)
      \<and> ([97] = [] \<or> \<not> is_space (last [97])) \<and> ([33, 98] = [] \<or> \<not> is_space (hd [33, 98]))"
    by (simp add: sp)
  from t have c1: "clean_filename [97, 32, 9, 33, 98]
      = filter spec_allowed (re_sub_ws [97, 32, 9, 33, 98])"
    by (rule conjunct1)
  from u h1 have c2: "re_sub_ws [97, 33, 98] = [97, 33, 98]" by blast
  from t h2 have c3: "re_sub_ws ([97] @ [32, 9] @ [33, 98])
      = re_sub_ws [97] @ 95 # re_sub_ws [33, 98]"
    by blast
  from t have c4: "\<forall>c\<in>set (clean_filename [97, 32, 9, 33, 98]). spec_allowed c \<and> \<not> is_space c"
    by blast
  from c4 have c5: "spec_allowed 97 \<and> spec_allowed 95 \<and> spec_allowed 98
      \<and> \<not> is_space 97 \<and> \<not> is_space 95 \<and> \<not> is_space 98"
    unfolding ev by simp
  from c1 c2 c3 ev c5 show ?thesis by (intro conjI) blast+
qed

text \<open>
  C7, as the code has it. On the title \<^verbatim>\<open>Ep. 5: The R\<close>U+00EB\<^verbatim>\<open>turn!\<close> the sanitizer returns
  \<^verbatim>\<open>Ep._5_The_R\<close>U+00EB\<^verbatim>\<open>turn\<close>: the colon and the exclamation mark are dropped, the full stop
  is an allowed character and stays. The extension is not appended after sanitization:
  \<^verbatim>\<open>process_podcast\<close> sanitizes the whole file name, extension included.
\<close>

theorem clean_filename_example_keeps_dot:
  "clean_filename example_title
     = [69, 112, 46, 95, 53, 95, 84, 104, 101, 95, 82, 235, 116, 117, 114, 110]
   \<and> filename_of 5
       \<lparr>title = Some example_title, description = None, PublicationDate = None,
        date = \<lparr>utc_instant = 0, year = 2023, month = 1, day = 10\<rparr>,
        rawURL = None, extension = Some (ascii ''.mp3'')\<rparr>
     = ascii ''2023-01-10_ep5_Ep._5_The_R'' @ [235] @ ascii ''turn.mp3''"
proof
  show "clean_filename example_title
     = [69, 112, 46, 95, 53, 95, 84, 104, 101, 95, 82, 235, 116, 117, 114, 110]"
    by (simp add: example_title_def clean_filename_def is_space_def good_character_eval)
  show "filename_of 5
       \<lparr>title = Some example_title, description = None, PublicationDate = None,
        date = \<lparr>utc_instant = 0, year = 2023, month = 1, day = 10\<rparr>,
        rawURL = None, extension = Some (ascii ''.mp3'')\<rparr>
     = ascii ''2023-01-10_ep5_Ep._5_The_R'' @ [235] @ ascii ''turn.mp3''"
    by (simp add: filename_of_def out_date_def zfill_def str_nat_digit str_nat_more fmt_def
        example_title_def ascii_def clean_filename_def is_space_def good_character_eval)
qed

text \<open>
  C7, as the specification states it: the result would be \<^verbatim>\<open>Ep_5_The_R\<close>U+00EB\<^verbatim>\<open>turn\<close>, with
  the full stop dropped. It is not.
\<close>

theorem clean_filename_example_counterexample:
  "clean_filename example_title
     \<noteq> [69, 112, 95, 53, 95, 84, 104, 101, 95, 82, 235, 116, 117, 114, 110]"
  by (simp add: example_title_def clean_filename_def is_space_def good_character_eval)

text \<open>
  C10. \<^verbatim>\<open>clean_filename\<close> is idempotent: its result holds no whitespace and only allowed
  characters, and it changes neither.
\<close>

theorem clean_filename_idempotent: "clean_filename (clean_filename s) = clean_filename s"
proof -
  have "\<forall>c\<in>set (clean_filename s). \<not> is_space c"
    using clean_filename_allowed allowed_not_space by blast
  then have "re_sub_ws (clean_filename s) = clean_filename s"
    by (rule re_sub_ws_no_space)
  then show ?thesis by (simp add: clean_filename_def)
qed

section \<open>Ordering and numbering\<close>

lemma keyed_total:
  "\<forall>e\<in>set l. extract_date env e = Inr (ts e) \<Longrightarrow> keyed env l = Inr (map (\<lambda>e. (ts e, e)) l)"
  by (induction l) auto

lemma insort_key_map_pair:
  "insort_key f (g x) (map g xs) = map g (insort_key (\<lambda>y. f (g y)) x xs)"
  by (induction xs) auto

lemma sort_key_map_pair: "sort_key f (map g xs) = map g (sort_key (\<lambda>y. f (g y)) xs)"
  by (induction xs) (auto simp: insort_key_map_pair)

lemma date_sort_total:
  assumes "\<forall>e\<in>set l. extract_date env e = Inr (ts e)"
  shows "date_sort env l = Inr (sort_key (\<lambda>e. utc_instant (ts e)) l)"
  by (simp add: date_sort_def keyed_total[OF assms] sort_key_map_pair comp_def)

lemma enumerate_strict:
  assumes s: "sorted (map f xs)" and d: "distinct (map f xs)"
    and p: "p \<in> set (List.enumerate n xs)" and q: "q \<in> set (List.enumerate n xs)"
  shows "fst p < fst q \<longleftrightarrow> f (snd p) < (f (snd q) :: int)"
proof -
  from p obtain i where i: "i < length xs" "p = (n + i, xs ! i)"
    by (auto simp: in_set_conv_nth nth_enumerate_eq)
  from q obtain j where j: "j < length xs" "q = (n + j, xs ! j)"
    by (auto simp: in_set_conv_nth nth_enumerate_eq)
  from s d have st: "sorted_wrt (<) (map f xs)" by (simp add: strict_sorted_iff)
  have lt: "\<And>a b. a < b \<Longrightarrow> b < length xs \<Longrightarrow> f (xs ! a) < f (xs ! b)"
    using st by (auto simp: sorted_wrt_iff_nth_less)
  show ?thesis
  proof
    assume "fst p < fst q"
    with i j have "i < j" by simp
    with lt j i show "f (snd p) < f (snd q)" by simp
  next
    assume a: "f (snd p) < f (snd q)"
    show "fst p < fst q"
    proof (rule ccontr)
      assume "\<not> fst p < fst q"
      with i j have "j \<le> i" by simp
      then consider "j = i" | "j < i" by linarith
      then show False
      proof cases
        case 1 with a i j show False by simp
      next
        case 2 with lt[of j i] i j a show False by simp
      qed
    qed
  qed
qed

lemma date_sort_props:
  assumes "\<forall>e\<in>set episode_list. extract_date env e = Inr (ts e)"
  shows "\<exists>eps. date_sort env episode_list = Inr eps
     \<and> mset eps = mset episode_list
     \<and> sorted (map (\<lambda>e. utc_instant (ts e)) eps)
     \<and> (\<forall>k. filter (\<lambda>e. utc_instant (ts e) = k) eps
             = filter (\<lambda>e. utc_instant (ts e) = k) episode_list)
     \<and> map fst (List.enumerate 1 eps) = [1..<Suc (length episode_list)]
     \<and> map snd (List.enumerate 1 eps) = eps
     \<and> (distinct (map (\<lambda>e. utc_instant (ts e)) episode_list) \<longrightarrow>
          (\<forall>p\<in>set (List.enumerate 1 eps). \<forall>q\<in>set (List.enumerate 1 eps).
             fst p < fst q \<longleftrightarrow> utc_instant (ts (snd p)) < utc_instant (ts (snd q))))"
proof -
  let ?f = "\<lambda>e. utc_instant (ts e)"
  let ?eps = "sort_key ?f episode_list"
  have r: "date_sort env episode_list = Inr ?eps" by (rule date_sort_total[OF assms])
  have m: "mset ?eps = mset episode_list" by simp
  have s: "sorted (map ?f ?eps)" by (rule sorted_sort_key)
  have st: "\<forall>k. filter (\<lambda>e. ?f e = k) ?eps = filter (\<lambda>e. ?f e = k) episode_list"
    by (simp add: sort_key_stable)
  have n: "map fst (List.enumerate 1 ?eps) = [1..<Suc (length episode_list)]" by simp
  have sn: "map snd (List.enumerate 1 ?eps) = ?eps" by simp
  have d: "distinct (map ?f ?eps)" if "distinct (map ?f episode_list)"
  proof -
    have "mset (map ?f ?eps) = mset (map ?f episode_list)" by simp
    then show ?thesis using that by (metis mset_eq_imp_distinct_iff)
  qed
  have str: "distinct (map ?f episode_list) \<longrightarrow>
          (\<forall>p\<in>set (List.enumerate 1 ?eps). \<forall>q\<in>set (List.enumerate 1 ?eps).
             fst p < fst q \<longleftrightarrow> ?f (snd p) < ?f (snd q))"
    using enumerate_strict[OF s d] by blast
  from r m s st n sn str show ?thesis by blast
qed

lemma demo_dates:
  "extract_date demo_env ep_jan = Inr \<lparr>utc_instant = 1673337600, year = 2023, month = 1, day = 10\<rparr>"
  "extract_date demo_env ep_mar = Inr \<lparr>utc_instant = 1677657600, year = 2023, month = 3, day = 1\<rparr>"
  "extract_date demo_env ep_feb = Inr \<lparr>utc_instant = 1676448000, year = 2023, month = 2, day = 15\<rparr>"
  by (simp_all add: extract_date_def demo_env_def ep_jan_def ep_mar_def ep_feb_def ascii_def)

lemma demo_date_sort: "date_sort demo_env [ep_jan, ep_mar, ep_feb] = Inr [ep_jan, ep_feb, ep_mar]"
  by (simp add: date_sort_def demo_dates)

section \<open>URLs, paths and the feed\<close>

text \<open>
  C3, as the code has it. A configured filter that matches resolves to the captured group of
  the first match; with no filter configured the raw URL is used unchanged; a configured
  filter that does not match does not fall back to the raw URL: \<^verbatim>\<open>findall(...)[0]\<close> raises.
\<close>

theorem resolve_url_contract:
  "(url_filter = Some p \<and> re_compile env p \<and> findall env p u = g # gs
      \<longrightarrow> resolve_url env url_filter (Some u) = Inr (Some g))
   \<and> (url_filter = None \<longrightarrow> resolve_url env url_filter (Some u) = Inr (Some u))
   \<and> (url_filter = Some p \<and> re_compile env p \<and> findall env p u = []
      \<longrightarrow> resolve_url env url_filter (Some u) = Inl IndexError)"
  by (simp add: resolve_url_def)

lemma demo_findall:
  "findall demo_env demo_pattern (ascii ''https://cdn.example/a.mp3?track=1'')
     = [ascii ''https://cdn.example/a.mp3'']"
  "findall demo_env demo_pattern (ascii ''http://media.example/1.mp3'') = []"
  "re_compile demo_env demo_pattern"
  by (simp_all add: demo_env_def ascii_def)

theorem resolve_url_contract_witness:
  "findall demo_env demo_pattern (ascii ''https://cdn.example/a.mp3?track=1'')
     = [ascii ''https://cdn.example/a.mp3'']
   \<and> resolve_url demo_env (Some demo_pattern) (Some (ascii ''https://cdn.example/a.mp3?track=1''))
     = Inr (Some (ascii ''https://cdn.example/a.mp3''))
   \<and> resolve_url demo_env None (Some (ascii ''http://media.example/1.mp3''))
     = Inr (Some (ascii ''http://media.example/1.mp3''))
   \<and> findall demo_env demo_pattern (ascii ''http://media.example/1.mp3'') = []
   \<and> resolve_url demo_env (Some demo_pattern) (Some (ascii ''http://media.example/1.mp3''))
     = Inl IndexError"
proof -
  note a = resolve_url_contract [of "Some demo_pattern" demo_pattern demo_env
      "ascii ''https://cdn.example/a.mp3?track=1''" "ascii ''https://cdn.example/a.mp3''" "[]"]
  note b = resolve_url_contract [of None demo_pattern demo_env
      "ascii ''http://media.example/1.mp3''" "[]" "[]"]
  note c = resolve_url_contract [of "Some demo_pattern" demo_pattern demo_env
      "ascii ''http://media.example/1.mp3''" "[]" "[]"]
  from a demo_findall have 1: "resolve_url demo_env (Some demo_pattern)
      (Some (ascii ''https://cdn.example/a.mp3?track=1'')) = Inr (Some (ascii ''https://cdn.example/a.mp3''))"
    by blast
  from b have 2: "resolve_url demo_env None (Some (ascii ''http://media.example/1.mp3''))
     = Inr (Some (ascii ''http://media.example/1.mp3''))" by blast
  from c demo_findall have 3: "resolve_url demo_env (Some demo_pattern)
      (Some (ascii ''http://media.example/1.mp3'')) = Inl IndexError" by blast
  from demo_findall(1) 1 2 demo_findall(2) 3 show ?thesis by (intro conjI)
qed

text \<open>
  C3, as the specification states it: a filter that does not match would leave the raw URL.
  On the example the pattern does not match and no URL is resolved.
\<close>

theorem resolve_url_no_match_counterexample:
  "re_compile demo_env demo_pattern
   \<and> findall demo_env demo_pattern (ascii ''http://media.example/1.mp3'') = []
   \<and> resolve_url demo_env (Some demo_pattern) (Some (ascii ''http://media.example/1.mp3''))
       \<noteq> Inr (Some (ascii ''http://media.example/1.mp3''))"
  by (simp add: resolve_url_def demo_findall)

text \<open>
  C8, as the code has it. A media type without entry in the extension mapping does not make
  the path derivation fail: \<^verbatim>\<open>guess_extension\<close> returns \<^verbatim>\<open>None\<close>, the f-string renders it as
  the text \<^verbatim>\<open>None\<close>, and the destination path ends in it.
\<close>

theorem derive_path_unknown_type:
  "extract_date env episode = Inr d \<and> item_enclosure episode = Some enc
     \<and> enc_type enc = Some ty \<and> guess_extension env ty = None
   \<longrightarrow> derive_path env pc n episode
       = Inr (outDir pc @ clean_filename (out_date d @ ascii ''_ep'' @ str_nat n @ ascii ''_'' @
                fmt (item_title episode) @ ascii ''None''))"
  by (simp add: derive_path_def read_tags_def filename_of_def fmt_def)

lemma demo_feb_guess: "guess_extension demo_env (ascii ''audio/x-unknown'') = None"
  by (simp add: demo_env_def ascii_def)

lemma demo_feb_tags:
  "read_tags demo_env ep_feb =
     Inr \<lparr>title = Some (ascii ''Second''), description = None,
          PublicationDate = Some (ascii ''Wed, 15 Feb 2023 08:00:00 +0000''),
          date = \<lparr>utc_instant = 1676448000, year = 2023, month = 2, day = 15\<rparr>,
          rawURL = Some (ascii ''http://media.example/2.mp3''), extension = None\<rparr>"
  apply (simp add: read_tags_def demo_dates)
  apply (simp add: ep_feb_def demo_feb_guess)
  done

lemma demo_feb_filename:
  "filename_of 2 \<lparr>title = Some (ascii ''Second''), description = None,
          PublicationDate = Some (ascii ''Wed, 15 Feb 2023 08:00:00 +0000''),
          date = \<lparr>utc_instant = 1676448000, year = 2023, month = 2, day = 15\<rparr>,
          rawURL = Some (ascii ''http://media.example/2.mp3''), extension = None\<rparr>
   = ascii ''2023-02-15_ep2_SecondNone''"
  by (simp add: filename_of_def fmt_def out_date_def zfill_def str_nat_digit str_nat_more
        ascii_def clean_filename_def is_space_def good_character_parts accented_capitals_def)

lemma demo_feb_path:
  "derive_path demo_env demo_pc 2 ep_feb = Inr (ascii ''out/Pod/2023-02-15_ep2_SecondNone'')"
  by (simp add: derive_path_def demo_feb_tags demo_feb_filename) (simp add: demo_pc_def ascii_def)

text \<open>
  C8, as the specification states it: the derivation would fail. On the February item,
  whose type has no extension, a path is derived.
\<close>

theorem derive_path_unknown_type_counterexample:
  "guess_extension demo_env (ascii ''audio/x-unknown'') = None
   \<and> item_enclosure ep_feb = Some \<lparr>enc_url = Some (ascii ''http://media.example/2.mp3''),
                                    enc_type = Some (ascii ''audio/x-unknown'')\<rparr>
   \<and> derive_path demo_env demo_pc 2 ep_feb = Inr (ascii ''out/Pod/2023-02-15_ep2_SecondNone'')"
proof (intro conjI)
  show "guess_extension demo_env (ascii ''audio/x-unknown'') = None" by (rule demo_feb_guess)
  show "item_enclosure ep_feb = Some \<lparr>enc_url = Some (ascii ''http://media.example/2.mp3''),
                                    enc_type = Some (ascii ''audio/x-unknown'')\<rparr>"
    by (simp add: ep_feb_def)
  show "derive_path demo_env demo_pc 2 ep_feb = Inr (ascii ''out/Pod/2023-02-15_ep2_SecondNone'')"
    by (rule demo_feb_path)
qed

theorem derive_path_unknown_type_witness:
  "extract_date demo_env ep_feb
      = Inr \<lparr>utc_instant = 1676448000, year = 2023, month = 2, day = 15\<rparr>
   \<and> item_enclosure ep_feb = Some \<lparr>enc_url = Some (ascii ''http://media.example/2.mp3''),
                                    enc_type = Some (ascii ''audio/x-unknown'')\<rparr>
   \<and> guess_extension demo_env (ascii ''audio/x-unknown'') = None
   \<and> derive_path demo_env demo_pc 2 ep_feb
       = Inr (outDir demo_pc @ clean_filename
               (out_date \<lparr>utc_instant = 1676448000, year = 2023, month = 2, day = 15\<rparr> @
                ascii ''_ep'' @ str_nat 2 @ ascii ''_'' @ fmt (item_title ep_feb) @ ascii ''None''))"
proof -
  have e: "item_enclosure ep_feb = Some \<lparr>enc_url = Some (ascii ''http://media.example/2.mp3''),
                                    enc_type = Some (ascii ''audio/x-unknown'')\<rparr>"
    by (simp add: ep_feb_def)
  have t: "enc_type \<lparr>enc_url = Some (ascii ''http://media.example/2.mp3''),
                     enc_type = Some (ascii ''audio/x-unknown'')\<rparr> = Some (ascii ''audio/x-unknown'')"
    by simp
  from derive_path_unknown_type [of demo_env ep_feb
      "\<lparr>utc_instant = 1676448000, year = 2023, month = 2, day = 15\<rparr>"
      "\<lparr>enc_url = Some (ascii ''http://media.example/2.mp3''),
        enc_type = Some (ascii ''audio/x-unknown'')\<rparr>"
      "ascii ''audio/x-unknown''" demo_pc 2] demo_dates(3) e t demo_feb_guess
  have "derive_path demo_env demo_pc 2 ep_feb
       = Inr (outDir demo_pc @ clean_filename
               (out_date \<lparr>utc_instant = 1676448000, year = 2023, month = 2, day = 15\<rparr> @
                ascii ''_ep'' @ str_nat 2 @ ascii ''_'' @ fmt (item_title ep_feb) @ ascii ''None''))"
    by blast
  with demo_dates(3) e demo_feb_guess show ?thesis by (intro conjI)
qed

text \<open>
  C9. For a location that does not start with \<^verbatim>\<open>http\<close>, \<^verbatim>\<open>get_rss\<close> never returns: a file
  that cannot be read raises, and a file that is read raises \<^verbatim>\<open>AttributeError\<close> at line 86.
\<close>

theorem get_rss_local_file_raises:
  "take 4 xml_location \<noteq> ascii ''http'' \<longrightarrow>
     (\<exists>e. get_rss env cfg xml_location w = (w, Inl e))
     \<and> (read_text env w xml_location = Inr text
          \<longrightarrow> get_rss env cfg xml_location w = (w, Inl AttributeError))"
  by (auto simp: get_rss_def split: sum.splits)

theorem get_rss_local_file_raises_witness:
  "take 4 (ascii ''feed.xml'') \<noteq> ascii ''http''
   \<and> read_text demo_env local_world (ascii ''feed.xml'') = Inr demo_feed_bytes
   \<and> get_rss demo_env demo_cfg (ascii ''feed.xml'') local_world = (local_world, Inl AttributeError)"
proof -
  have a: "take 4 (ascii ''feed.xml'') \<noteq> ascii ''http''" by (simp add: ascii_def)
  have b: "read_text demo_env local_world (ascii ''feed.xml'') = Inr demo_feed_bytes"
    by (simp add: read_text_def local_world_def demo_env_def demo_feed_bytes_def ascii_def)
  from get_rss_local_file_raises [of "ascii ''feed.xml''" demo_env demo_cfg local_world
      demo_feed_bytes] a b
  have "get_rss demo_env demo_cfg (ascii ''feed.xml'') local_world = (local_world, Inl AttributeError)"
    by blast
  with a b show ?thesis by (intro conjI)
qed

section \<open>Worlds, steps and loops\<close>

lemma extends_refl: "extends w w"
  by (simp add: extends_def)

lemma kind_of_None: "kind_of n = 0 \<longleftrightarrow> n = None"
  by (auto simp: kind_of_def split: option.splits node.splits)

lemma kind_of_Dir: "kind_of n = 1 \<longleftrightarrow> n = Some Dir"
  by (auto simp: kind_of_def split: option.splits node.splits)

lemma extends_trans: "extends a b \<Longrightarrow> extends b c \<Longrightarrow> extends a c"
  unfolding extends_def by (metis kind_of_None)

lemma extends_fs_eq: "fs v' = fs v \<Longrightarrow> extends w v \<Longrightarrow> extends w v'"
  by (simp add: extends_def)

lemma extends_kinds: "\<forall>p. kind_of (fs v' p) = kind_of (fs v p) \<Longrightarrow> extends w v \<Longrightarrow> extends w v'"
  by (simp add: extends_def)

lemma extends_exists: "extends w v \<Longrightarrow> path_exists w p \<Longrightarrow> path_exists v p"
  unfolding extends_def path_exists_def by (metis kind_of_None)

lemma extends_isdir: "extends w v \<Longrightarrow> isdir w p \<Longrightarrow> isdir v p"
  unfolding extends_def isdir_def by (metis kind_of_Dir option.distinct(1))

lemma fs_emit [simp]: "fs (emit e w) = fs w"
  by (simp add: emit_def)

lemma trace_emit [simp]: "trace (emit e w) = trace w @ [e]"
  by (simp add: emit_def)

lemma isdir_emit [simp]: "isdir (emit e w) p = isdir w p"
  by (simp add: isdir_def)

lemma path_exists_emit [simp]: "path_exists (emit e w) p = path_exists w p"
  by (simp add: path_exists_def)

lemma extends_emit: "extends w (emit e w)"
  by (simp add: extends_def)

lemma write_file_Inr:
  "write_file tag dir path data w = Inr w' \<longleftrightarrow>
     isdir w dir \<and> \<not> isdir w path \<and> w' = emit (tag path) (w\<lparr>fs := (fs w)(path \<mapsto> File data)\<rparr>)"
  by (auto simp: write_file_def)

lemma extends_write_file: "write_file tag dir path data w = Inr w' \<Longrightarrow> extends w w'"
  by (auto simp: write_file_Inr extends_def isdir_def kind_of_def split: option.splits node.splits)

lemma makedirs_Inr:
  "makedirs path w = Inr w' \<longleftrightarrow>
     (\<forall>b. fs w path \<noteq> Some (File b)) \<and> w' = emit (MakeDirs path) (w\<lparr>fs := (fs w)(path \<mapsto> Dir)\<rparr>)"
  by (auto simp: makedirs_def split: option.splits node.splits)

lemma extends_makedirs: "makedirs path w = Inr w' \<Longrightarrow> extends w w'"
  by (auto simp: makedirs_Inr extends_def kind_of_def split: option.splits node.splits)

lemma requests_get_fs: "requests_get env tag url w = (w', r) \<Longrightarrow> fs w' = fs w"
  by (auto simp: requests_get_def split: option.splits)

lemma requests_get_Inr:
  "requests_get env tag url w = (w', Inr r) \<longleftrightarrow>
     (\<exists>u. url = Some u \<and> http_get env u = Some r \<and> w' = emit (tag u) w)"
  by (auto simp: requests_get_def split: option.splits)

lemma episode_art_fs: "episode_art env pc episode w = (w', r) \<Longrightarrow> fs w' = fs w"
  by (auto simp: episode_art_def Let_def split: option.splits sum.splits if_splits prod.splits
        dest!: requests_get_fs)

lemma update_metadata_kinds:
  assumes "update_metadata env pc n tags a data path w3 = (w', r)"
    and "\<exists>b. fs w3 path = Some (File b)"
  shows "\<forall>p. kind_of (fs w' p) = kind_of (fs w3 p)"
proof -
  from assms(1) consider "w' = w3"
    | tagged where "w' = emit (SaveTags path) (w3\<lparr>fs := (fs w3)(path \<mapsto> File tagged)\<rparr>)"
    by (auto simp: update_metadata_def split: option.splits bool.splits)
  then show ?thesis
  proof cases
    case 1
    then show ?thesis by simp
  next
    case 2
    with assms(2) show ?thesis by (auto simp: kind_of_def)
  qed
qed

lemma update_metadata_done:
  "update_metadata env pc n tags a data path w3 = (w', None) \<Longrightarrow> path_exists w' path"
  by (auto simp: update_metadata_def path_exists_def split: option.splits bool.splits)

lemma download_extends: "download env pc n episode tags url w = (w', r) \<Longrightarrow> extends w w'"
proof -
  assume a: "download env pc n episode tags url w = (w', r)"
  obtain w1 ra where ea: "episode_art env pc episode w = (w1, ra)" by (cases "episode_art env pc episode w")
  then have f1: "fs w1 = fs w" by (rule episode_art_fs)
  show ?thesis
  proof (cases ra)
    case (Inl e)
    with a ea f1 show ?thesis by (simp add: download_def extends_def)
  next
    case (Inr art)
    let ?fn = "filename_of n tags"
    obtain w2 rm where rg: "requests_get env FetchMedia url (emit (Print (Downloading ?fn)) w1) = (w2, rm)"
      by (cases "requests_get env FetchMedia url (emit (Print (Downloading ?fn)) w1)")
    then have f2: "fs w2 = fs w" using f1 by (auto dest: requests_get_fs)
    show ?thesis
    proof (cases rm)
      case (Inl e)
      with a ea Inr rg f2 show ?thesis by (simp add: download_def extends_def)
    next
      case html: (Inr html)
      show ?thesis
      proof (cases "write_file WriteEpisode (outDir pc) (outDir pc @ ?fn) (content html)
                      (emit (Print (Saving ?fn)) w2)")
        case (Inl e)
        with a ea Inr rg html have "w' = emit (Print (Saving ?fn)) w2" by (simp add: download_def)
        with f2 show ?thesis by (simp add: extends_def)
      next
        case w3: (Inr w3)
        then have e3: "extends (emit (Print (Saving ?fn)) w2) w3" by (rule extends_write_file)
        then have e3': "extends w w3" using f2 by (simp add: extends_def)
        from w3 have file3: "\<exists>b. fs w3 (outDir pc @ ?fn) = Some (File b)"
          by (auto simp: write_file_Inr)
        from a ea Inr rg html w3
        have "update_metadata env pc n tags art (content html) (outDir pc @ ?fn) w3 = (w', r)"
          by (simp add: download_def Let_def)
        then have "\<forall>p. kind_of (fs w' p) = kind_of (fs w3 p)"
          using file3 by (rule update_metadata_kinds)
        then show ?thesis using e3' by (rule extends_kinds)
      qed
    qed
  qed
qed

lemma download_done:
  "download env pc n episode tags url w = (w', None) \<Longrightarrow>
     path_exists w' (outDir pc @ filename_of n tags)"
  by (auto simp: download_def Let_def split: prod.splits sum.splits
        dest: update_metadata_done)

lemma process_podcast_extends:
  "process_podcast env cfg pc ie w = (w', r) \<Longrightarrow> extends w w'"
  by (auto simp: process_podcast_def Let_def extends_def[of w] split: sum.splits if_splits
        dest!: download_extends) (auto simp: extends_def)

lemma process_podcast_done:
  assumes "\<not> dryRun cfg" and "process_podcast env cfg pc ie w = (w', None)"
  shows "\<exists>tags url. read_tags env (snd ie) = Inr tags
           \<and> resolve_url env (episodeUrlFilter (source pc)) (rawURL tags) = Inr url
           \<and> path_exists w' (outDir pc @ filename_of (fst ie) tags)"
  using assms
  by (auto simp: process_podcast_def Let_def split: sum.splits if_splits dest: download_done)

lemma process_podcast_skip:
  assumes "\<not> dryRun cfg" and "read_tags env (snd ie) = Inr tags"
    and "resolve_url env (episodeUrlFilter (source pc)) (rawURL tags) = Inr url"
    and "path_exists v (outDir pc @ filename_of (fst ie) tags)"
  shows "process_podcast env cfg pc ie v = (v\<lparr>trace := trace v @ skip_events ie tags\<rparr>, None)"
proof -
  have "path_exists (emit (Print (WorkingOn (title tags))) v) (outDir pc @ filename_of (fst ie) tags)"
    using assms(4) by simp
  then show ?thesis using assms(1-3)
    by (auto simp: process_podcast_def Let_def skip_events_def emit_def path_exists_def)
qed

lemma rerun_refl: "rerun v v []"
  by (simp add: rerun_def)

lemma rerun_trans: "rerun a b t \<Longrightarrow> rerun b c t' \<Longrightarrow> rerun a c (t @ t')"
  by (auto simp: rerun_def)

lemma rerun_skip: "rerun v (v\<lparr>trace := trace v @ skip_events ie tags\<rparr>) (skip_events ie tags)"
  by (simp add: rerun_def skip_events_def episode_io_def is_working_def)

lemma for_each_Cons_None:
  "for_each body (x # xs) w = (w', None) \<longleftrightarrow>
     (\<exists>w1. body x w = (w1, None) \<and> for_each body xs w1 = (w', None))"
  by (auto split: prod.splits option.splits)

lemma for_each_extends:
  assumes "\<And>x w w' r. body x w = (w', r) \<Longrightarrow> extends w w'"
  shows "for_each body xs w = (w', r) \<Longrightarrow> extends w w'"
proof (induction xs arbitrary: w)
  case Nil
  then show ?case by (simp add: extends_refl)
next
  case (Cons x xs)
  obtain w1 r1 where b: "body x w = (w1, r1)" by (cases "body x w")
  then have e: "extends w w1" by (rule assms)
  show ?case
  proof (cases r1)
    case None
    with Cons.prems b have "for_each body xs w1 = (w', r)" by simp
    then have "extends w1 w'" by (rule Cons.IH)
    with e show ?thesis by (rule extends_trans)
  next
    case (Some a)
    with Cons.prems b e show ?thesis by simp
  qed
qed

lemma for_each_stops:
  "for_each body xs w = (w1, None) \<Longrightarrow> body x w1 = (w2, Some e) \<Longrightarrow>
     for_each body (xs @ x # ys) w = (w2, Some e)"
proof (induction xs arbitrary: w)
  case Nil
  then show ?case by simp
next
  case (Cons a xs)
  from Cons.prems(1) obtain wa where a: "body a w = (wa, None)"
      and r: "for_each body xs wa = (w1, None)"
    unfolding for_each_Cons_None by blast
  from Cons.IH[OF r Cons.prems(2)] a show ?case by simp
qed

lemma episodes_extends:
  "for_each (process_podcast env cfg pc) xs w = (w', r) \<Longrightarrow> extends w w'"
  by (rule for_each_extends) (rule process_podcast_extends)

lemma episodes_rerun:
  assumes nd: "\<not> dryRun cfg"
  shows "for_each (process_podcast env cfg pc) xs w = (w', None) \<Longrightarrow> extends w' v \<Longrightarrow>
     \<exists>v' t. for_each (process_podcast env cfg pc) xs v = (v', None) \<and> rerun v v' t"
proof (induction xs arbitrary: w v)
  case Nil
  then show ?case using rerun_refl by auto
next
  case (Cons x xs)
  from Cons.prems(1) obtain w1 where x: "process_podcast env cfg pc x w = (w1, None)"
      and r: "for_each (process_podcast env cfg pc) xs w1 = (w', None)"
    unfolding for_each_Cons_None by blast
  from process_podcast_done[OF nd x] obtain tags url where
      t: "read_tags env (snd x) = Inr tags"
      and u: "resolve_url env (episodeUrlFilter (source pc)) (rawURL tags) = Inr url"
      and p: "path_exists w1 (outDir pc @ filename_of (fst x) tags)"
    by blast
  from r have "extends w1 w'" by (rule episodes_extends)
  then have "extends w1 v" using Cons.prems(2) by (rule extends_trans)
  then have pv: "path_exists v (outDir pc @ filename_of (fst x) tags)" using p by (rule extends_exists)
  let ?v1 = "v\<lparr>trace := trace v @ skip_events x tags\<rparr>"
  have sx: "process_podcast env cfg pc x v = (?v1, None)"
    by (rule process_podcast_skip[OF nd t u pv])
  have "extends w' ?v1" using Cons.prems(2) by (simp add: extends_def)
  from Cons.IH[OF r this] obtain v' t' where
      rest: "for_each (process_podcast env cfg pc) xs ?v1 = (v', None)" and rr: "rerun ?v1 v' t'"
    by blast
  have "rerun v v' (skip_events x tags @ t')" using rerun_skip rr by (rule rerun_trans)
  moreover have "for_each (process_podcast env cfg pc) (x # xs) v = (v', None)"
    using sx rest by simp
  ultimately show ?case by blast
qed

lemma get_rss_Inr:
  "get_rss env cfg loc w = (w', Inr x) \<Longrightarrow>
     get_rss env cfg loc v = (emit (FetchFeed loc) v, Inr x) \<and> w' = emit (FetchFeed loc) w"
  by (auto simp: get_rss_def requests_get_def split: if_splits option.splits sum.splits)

lemma get_rss_fs: "get_rss env cfg loc w = (w', r) \<Longrightarrow> fs w' = fs w"
  by (auto simp: get_rss_def requests_get_def split: if_splits option.splits sum.splits)

lemma setup_source_Inr:
  "setup_source env cfg ip w = (w', Inr pc) \<longleftrightarrow>
    (\<exists>w2 w3 xn root u r eps mime.
       (if isdir w (source_dir cfg ip)
        then w2 = emit (Print (Starting (fst ip + 1) (name (snd ip)))) w
        else makedirs (source_dir cfg ip) (emit (Print (Starting (fst ip + 1) (name (snd ip)))) w) = Inr w2)
     \<and> get_rss env cfg (rssFeedUrl (snd ip)) w2 = (w3, Inr xn)
     \<and> fromstring env (fst xn) = Some root
     \<and> channel_image_url root = Some (Some u)
     \<and> http_get env u = Some r
     \<and> date_sort env (items root) = Inr eps
     \<and> content_type r = Some mime
     \<and> snd xn (ascii ''itunes'') \<noteq> None
     \<and> write_file WriteCover (source_dir cfg ip)
           (source_dir cfg ip @ ascii ''cover'' @ fmt (guess_extension env mime))
           (content r) (emit (FetchChannelArt u) w3) = Inr w'
     \<and> pc = \<lparr>source = snd ip, outDir = source_dir cfg ip, episodes = eps, namespaces = snd xn,
               tags0 = \<lparr>album = channel_title root, art = content r, artMime = mime,
                        artist = itunes_author root, album_artist = channel_title root,
                        copyright = channel_copyright root\<rparr>\<rparr>)"
  unfolding setup_source_def Let_def source_dir_def requests_get_def
  by (auto split: sum.splits option.splits prod.splits if_splits)

lemma extends_via_fs: "extends a b \<Longrightarrow> fs a = fs a' \<Longrightarrow> fs b' = fs b \<Longrightarrow> extends a' b'"
  by (simp add: extends_def)

lemma setup_source_extends:
  assumes "setup_source env cfg ip w = (w', r)"
  shows "extends w w'"
proof -
  let ?w1 = "emit (Print (Starting (fst ip + 1) (name (snd ip)))) w"
  let ?D = "outPath cfg @ name (snd ip) @ ascii ''/''"
  show ?thesis
  proof (cases "if \<not> isdir w ?D then makedirs ?D ?w1 else Inr ?w1")
    case (Inl e)
    from Inl assms have "w' = ?w1" by (auto simp: setup_source_def Let_def split: if_splits)
    then show ?thesis by (simp add: extends_def)
  next
    case (Inr w2)
    then have e2: "extends w w2"
      by (auto split: if_splits dest!: extends_makedirs simp: extends_def)
    obtain w3 r3 where g: "get_rss env cfg (rssFeedUrl (snd ip)) w2 = (w3, r3)"
      by (cases "get_rss env cfg (rssFeedUrl (snd ip)) w2")
    then have f3: "fs w3 = fs w2" by (rule get_rss_fs)
    have e3: "extends w w3" using e2 f3 by (simp add: extends_def)
    have k: "\<And>u w4 r4. requests_get env FetchChannelArt u w3 = (w4, r4) \<Longrightarrow> extends w w4"
      using e3 by (auto dest!: requests_get_fs simp: extends_def)
    have k5: "\<And>u w4 r4 a b c w5. requests_get env FetchChannelArt u w3 = (w4, r4) \<Longrightarrow>
        write_file WriteCover a b c w4 = Inr w5 \<Longrightarrow> extends w w5"
      using k extends_write_file extends_trans by blast
    from Inr g assms e3 k k5 show ?thesis
      unfolding setup_source_def Let_def
      by (auto split: sum.splits option.splits prod.splits if_splits)
  qed
qed

lemma process_source_extends:
  "process_source env cfg ip w = (w', r) \<Longrightarrow> extends w w'"
  unfolding process_source_def
  by (auto split: prod.splits sum.splits dest!: setup_source_extends episodes_extends
        intro: extends_trans)

lemma setup_source_rerun:
  assumes s: "setup_source env cfg ip w = (w', Inr pc)" and ext: "extends w' v"
  shows "\<exists>v' t. setup_source env cfg ip v = (v', Inr pc) \<and> rerun v v' t"
proof -
  let ?D = "source_dir cfg ip"
  let ?st = "Print (Starting (fst ip + 1) (name (snd ip)))"
  from s obtain w2 w3 xn root u r eps mime where
      g: "get_rss env cfg (rssFeedUrl (snd ip)) w2 = (w3, Inr xn)"
      and fr: "fromstring env (fst xn) = Some root"
      and ci: "channel_image_url root = Some (Some u)"
      and hg: "http_get env u = Some r"
      and ds: "date_sort env (items root) = Inr eps"
      and ct: "content_type r = Some mime"
      and it: "snd xn (ascii ''itunes'') \<noteq> None"
      and wf: "write_file WriteCover ?D (?D @ ascii ''cover'' @ fmt (guess_extension env mime))
                 (content r) (emit (FetchChannelArt u) w3) = Inr w'"
      and pc: "pc = \<lparr>source = snd ip, outDir = ?D, episodes = eps, namespaces = snd xn,
               tags0 = \<lparr>album = channel_title root, art = content r, artMime = mime,
                        artist = itunes_author root, album_artist = channel_title root,
                        copyright = channel_copyright root\<rparr>\<rparr>"
    unfolding setup_source_Inr by blast
  let ?P = "?D @ ascii ''cover'' @ fmt (guess_extension env mime)"
  from wf have d': "isdir w' ?D" and p': "fs w' ?P = Some (File (content r))"
    by (auto simp: write_file_Inr isdir_def)
  from ext d' have dv: "isdir v ?D" by (rule extends_isdir)
  from ext p' have "kind_of (fs v ?P) = 2" by (simp add: extends_def kind_of_def)
  then obtain b where pv: "fs v ?P = Some (File b)"
    by (auto simp: kind_of_def split: option.splits node.splits)
  let ?v2 = "emit ?st v"
  let ?v3 = "emit (FetchFeed (rssFeedUrl (snd ip))) ?v2"
  let ?v4 = "emit (FetchChannelArt u) ?v3"
  let ?v5 = "emit (WriteCover ?P) (?v4\<lparr>fs := (fs ?v4)(?P \<mapsto> File (content r))\<rparr>)"
  let ?t = "[?st, FetchFeed (rssFeedUrl (snd ip)), FetchChannelArt u, WriteCover ?P]"
  have g': "get_rss env cfg (rssFeedUrl (snd ip)) ?v2 = (?v3, Inr xn)"
    using get_rss_Inr[OF g] by simp
  have wf': "write_file WriteCover ?D ?P (content r) ?v4 = Inr ?v5"
    using dv pv by (simp add: write_file_Inr isdir_def)
  have "setup_source env cfg ip v = (?v5, Inr pc)"
    using dv g' fr ci hg ds ct it wf' pc
    by (simp add: setup_source_def Let_def source_dir_def requests_get_def)
  moreover have "rerun v ?v5 ?t"
    using pv by (auto simp: rerun_def emit_def episode_io_def is_working_def kind_of_def)
  ultimately show ?thesis by blast
qed

lemma rerun_extends: "rerun v v' t \<Longrightarrow> extends w v \<Longrightarrow> extends w v'"
  by (simp add: rerun_def extends_def)

lemma process_source_rerun:
  assumes nd: "\<not> dryRun cfg" and p: "process_source env cfg ip w = (w', None)"
    and ext: "extends w' v"
  shows "\<exists>v' t. process_source env cfg ip v = (v', None) \<and> rerun v v' t"
proof -
  from p obtain ws pc where s: "setup_source env cfg ip w = (ws, Inr pc)"
      and e: "for_each (process_podcast env cfg pc) (List.enumerate 1 (episodes pc)) ws = (w', None)"
    unfolding process_source_def by (auto split: prod.splits sum.splits)
  from e have "extends ws w'" by (rule episodes_extends)
  then have "extends ws v" using ext by (rule extends_trans)
  from setup_source_rerun[OF s this] obtain v1 t1 where
      s': "setup_source env cfg ip v = (v1, Inr pc)" and r1: "rerun v v1 t1" by blast
  from r1 ext have "extends w' v1" by (rule rerun_extends)
  from episodes_rerun[OF nd e this] obtain v' t2 where
      e': "for_each (process_podcast env cfg pc) (List.enumerate 1 (episodes pc)) v1 = (v', None)"
      and r2: "rerun v1 v' t2" by blast
  from s' e' have "process_source env cfg ip v = (v', None)" by (simp add: process_source_def)
  moreover from r1 r2 have "rerun v v' (t1 @ t2)" by (rule rerun_trans)
  ultimately show ?thesis by blast
qed

lemma sources_extends:
  "for_each (process_source env cfg) xs w = (w', r) \<Longrightarrow> extends w w'"
  by (rule for_each_extends) (rule process_source_extends)

lemma sources_rerun:
  assumes nd: "\<not> dryRun cfg"
  shows "for_each (process_source env cfg) xs w = (w', None) \<Longrightarrow> extends w' v \<Longrightarrow>
     \<exists>v' t. for_each (process_source env cfg) xs v = (v', None) \<and> rerun v v' t"
proof (induction xs arbitrary: w v)
  case Nil
  then show ?case using rerun_refl by auto
next
  case (Cons x xs)
  from Cons.prems(1) obtain w1 where x: "process_source env cfg x w = (w1, None)"
      and r: "for_each (process_source env cfg) xs w1 = (w', None)"
    unfolding for_each_Cons_None by blast
  from r have "extends w1 w'" by (rule sources_extends)
  then have "extends w1 v" using Cons.prems(2) by (rule extends_trans)
  from process_source_rerun[OF nd x this] obtain v1 t1 where
      x': "process_source env cfg x v = (v1, None)" and r1: "rerun v v1 t1" by blast
  from r1 Cons.prems(2) have "extends w' v1" by (rule rerun_extends)
  from Cons.IH[OF r this] obtain v' t2 where
      rest: "for_each (process_source env cfg) xs v1 = (v', None)" and r2: "rerun v1 v' t2"
    by blast
  from x' rest have "for_each (process_source env cfg) (x # xs) v = (v', None)" by simp
  moreover from r1 r2 have "rerun v v' (t1 @ t2)" by (rule rerun_trans)
  ultimately show ?case by blast
qed

lemma main_rerun:
  assumes "\<not> dryRun cfg" and "main env cfg w0 = (w1, None)"
  shows "\<exists>w2 t. main env cfg w1 = (w2, None) \<and> rerun w1 w2 t"
  unfolding main_def
  by (rule sources_rerun[OF assms(1) assms(2)[unfolded main_def] extends_refl])

section \<open>Skipping, failing and dry runs\<close>

lemma is_print_simps [simp]: "is_print (Print m)" "\<not> is_print Sleep"
  by (simp_all add: is_print_def)

lemma process_podcast_exists:
  assumes d: "derive_path env pc n episode = Inr p" and ex: "path_exists w p"
    and nd: "\<not> dryRun cfg"
  shows "\<exists>tags. read_tags env episode = Inr tags
           \<and> (case resolve_url env (episodeUrlFilter (source pc)) (rawURL tags) of
                Inl e \<Rightarrow>
                  process_podcast env cfg pc (n, episode) w
                    = (w\<lparr>trace := trace w @ [Print (WorkingOn (title tags))]\<rparr>, Some e)
              | Inr url \<Rightarrow>
                  process_podcast env cfg pc (n, episode) w
                    = (w\<lparr>trace := trace w @
                          [Print (WorkingOn (title tags)), Print Skipping, Print (Track n),
                           Print (FileName (filename_of n tags))]\<rparr>, None))"
proof -
  from d obtain tags where t: "read_tags env episode = Inr tags"
      and p: "p = outDir pc @ filename_of n tags"
    by (auto simp: derive_path_def split: sum.splits)
  show ?thesis
  proof (cases "resolve_url env (episodeUrlFilter (source pc)) (rawURL tags)")
    case (Inl e)
    with t have "process_podcast env cfg pc (n, episode) w
        = (w\<lparr>trace := trace w @ [Print (WorkingOn (title tags))]\<rparr>, Some e)"
      by (simp add: process_podcast_def Let_def emit_def)
    with t Inl show ?thesis by simp
  next
    case (Inr url)
    have "process_podcast env cfg pc (n, episode) w
        = (w\<lparr>trace := trace w @ skip_events (n, episode) tags\<rparr>, None)"
      using process_podcast_skip[of cfg env "(n, episode)" tags pc url w] nd t Inr ex p by simp
    with t Inr show ?thesis by (simp add: skip_events_def)
  qed
qed

text \<open>
  C1, as the code has it. When the derived destination path of an episode exists and
  dry-run is off, \<^verbatim>\<open>process_podcast\<close> leaves every file as it is and makes no request. The
  media URL is resolved (lines 192 to 196) before the existence test (line 198): when it
  resolves, the episode is skipped, with the title line and the three lines of the skip
  notice printed; when it raises (a configured filter that does not match), the exception
  leaves \<^verbatim>\<open>process_podcast\<close> after the title line, and nothing is skipped.
  A second run after a run that completed, against the same feed and network: it
  completes, it adds no request for media or episode artwork and no write or tagging of an
  episode file, the set of existing paths is the same, every path that is not rewritten as a
  cover keeps its content, and every episode it starts on is skipped.
\<close>

theorem existing_path_is_skipped:
  "(derive_path env pc n episode = Inr p \<and> path_exists w p \<and> \<not> dryRun cfg \<longrightarrow>
      (\<exists>tags. read_tags env episode = Inr tags
           \<and> (case resolve_url env (episodeUrlFilter (source pc)) (rawURL tags) of
                Inl e \<Rightarrow>
                  process_podcast env cfg pc (n, episode) w
                    = (w\<lparr>trace := trace w @ [Print (WorkingOn (title tags))]\<rparr>, Some e)
              | Inr url \<Rightarrow>
                  process_podcast env cfg pc (n, episode) w
                    = (w\<lparr>trace := trace w @
                          [Print (WorkingOn (title tags)), Print Skipping, Print (Track n),
                           Print (FileName (filename_of n tags))]\<rparr>, None))))
   \<and> (\<not> dryRun cfg \<and> main env cfg w0 = (w1, None) \<longrightarrow>
      (\<exists>w2 t. main env cfg w1 = (w2, None)
           \<and> trace w2 = trace w1 @ t
           \<and> (\<forall>e\<in>set t. \<not> episode_io e)
           \<and> (\<forall>q. path_exists w2 q = path_exists w1 q)
           \<and> (\<forall>q. WriteCover q \<notin> set t \<longrightarrow> fs w2 q = fs w1 q)
           \<and> length (filter (\<lambda>e. e = Print Skipping) t) = length (filter is_working t)))"
proof (intro conjI impI)
  assume "derive_path env pc n episode = Inr p \<and> path_exists w p \<and> \<not> dryRun cfg"
  then show "\<exists>tags. read_tags env episode = Inr tags
           \<and> (case resolve_url env (episodeUrlFilter (source pc)) (rawURL tags) of
                Inl e \<Rightarrow>
                  process_podcast env cfg pc (n, episode) w
                    = (w\<lparr>trace := trace w @ [Print (WorkingOn (title tags))]\<rparr>, Some e)
              | Inr url \<Rightarrow>
                  process_podcast env cfg pc (n, episode) w
                    = (w\<lparr>trace := trace w @
                          [Print (WorkingOn (title tags)), Print Skipping, Print (Track n),
                           Print (FileName (filename_of n tags))]\<rparr>, None))"
    using process_podcast_exists[of env pc n episode p w cfg] by blast
next
  assume "\<not> dryRun cfg \<and> main env cfg w0 = (w1, None)"
  then obtain w2 t where m: "main env cfg w1 = (w2, None)" and r: "rerun w1 w2 t"
    using main_rerun by blast
  from r have k: "\<forall>q. kind_of (fs w2 q) = kind_of (fs w1 q)" by (simp add: rerun_def)
  have "\<forall>q. path_exists w2 q = path_exists w1 q"
  proof
    fix q
    from k have "kind_of (fs w2 q) = 0 \<longleftrightarrow> kind_of (fs w1 q) = 0" by simp
    then show "path_exists w2 q = path_exists w1 q" by (simp add: path_exists_def kind_of_None)
  qed
  with m r show "\<exists>w2 t. main env cfg w1 = (w2, None)
           \<and> trace w2 = trace w1 @ t
           \<and> (\<forall>e\<in>set t. \<not> episode_io e)
           \<and> (\<forall>q. path_exists w2 q = path_exists w1 q)
           \<and> (\<forall>q. WriteCover q \<notin> set t \<longrightarrow> fs w2 q = fs w1 q)
           \<and> length (filter (\<lambda>e. e = Print Skipping) t) = length (filter is_working t)"
    unfolding rerun_def by blast
qed

text \<open>
  C4, as the code has it. Nothing catches an exception of \<^verbatim>\<open>process_podcast\<close>: when the
  episodes \<open>before\<close> are processed and episode \<open>ie\<close> raises, the source ends in the world
  the failing episode left and with its exception, the episodes \<open>rest\<close> are not attempted,
  and the loop over the sources ends there too.
\<close>

theorem episode_failure_stops_source:
  "setup_source env cfg ip w = (w0, Inr pc)
     \<and> List.enumerate 1 (episodes pc) = before @ ie # rest
     \<and> for_each (process_podcast env cfg pc) before w0 = (w1, None)
     \<and> process_podcast env cfg pc ie w1 = (w2, Some e)
   \<longrightarrow> process_source env cfg ip w = (w2, Some e)
       \<and> for_each (process_source env cfg) (ip # ips) w = (w2, Some e)"
proof (intro impI)
  assume a: "setup_source env cfg ip w = (w0, Inr pc)
     \<and> List.enumerate 1 (episodes pc) = before @ ie # rest
     \<and> for_each (process_podcast env cfg pc) before w0 = (w1, None)
     \<and> process_podcast env cfg pc ie w1 = (w2, Some e)"
  then have "for_each (process_podcast env cfg pc) (before @ ie # rest) w0 = (w2, Some e)"
    using for_each_stops[of "process_podcast env cfg pc" before w0 w1 ie w2 e rest] by simp
  with a have "process_source env cfg ip w = (w2, Some e)"
    by (simp add: process_source_def)
  then show "process_source env cfg ip w = (w2, Some e)
       \<and> for_each (process_source env cfg) (ip # ips) w = (w2, Some e)"
    by simp
qed

lemma process_podcast_dry:
  assumes "dryRun cfg"
  shows "\<exists>t r. process_podcast env cfg pc ie w = (w\<lparr>trace := trace w @ t\<rparr>, r)
           \<and> (\<forall>e\<in>set t. e = Sleep \<or> is_print e) \<and> (r = None \<longrightarrow> t = dry_events ie)"
proof (cases "read_tags env (snd ie)")
  case (Inl e)
  then have "process_podcast env cfg pc ie w = (w\<lparr>trace := trace w @ []\<rparr>, Some e)"
    by (simp add: process_podcast_def)
  moreover have "\<forall>e\<in>set []. e = Sleep \<or> is_print e" by simp
  ultimately show ?thesis by blast
next
  case (Inr tags)
  then have tt: "title tags = item_title (snd ie)"
    by (auto simp: read_tags_def split: sum.splits option.splits)
  show ?thesis
  proof (cases "resolve_url env (episodeUrlFilter (source pc)) (rawURL tags)")
    case (Inl e)
    with Inr have "process_podcast env cfg pc ie w
        = (w\<lparr>trace := trace w @ [Print (WorkingOn (title tags))]\<rparr>, Some e)"
      by (simp add: process_podcast_def Let_def emit_def)
    moreover have "\<forall>e\<in>set [Print (WorkingOn (title tags))]. e = Sleep \<or> is_print e" by simp
    ultimately show ?thesis by blast
  next
    case url: (Inr url)
    with Inr assms tt have "process_podcast env cfg pc ie w
        = (w\<lparr>trace := trace w @ dry_events ie\<rparr>, None)"
      by (simp add: process_podcast_def Let_def emit_def dry_events_def)
    moreover have "\<forall>e\<in>set (dry_events ie). e = Sleep \<or> is_print e"
      by (simp add: dry_events_def)
    ultimately show ?thesis by blast
  qed
qed

lemma episodes_dry:
  assumes "dryRun cfg"
  shows "\<exists>t r. for_each (process_podcast env cfg pc) xs w = (w\<lparr>trace := trace w @ t\<rparr>, r)
           \<and> (\<forall>e\<in>set t. e = Sleep \<or> is_print e)
           \<and> (r = None \<longrightarrow> t = concat (map dry_events xs))"
proof (induction xs arbitrary: w)
  case Nil
  have "for_each (process_podcast env cfg pc) [] w = (w\<lparr>trace := trace w @ []\<rparr>, None)" by simp
  moreover have "\<forall>e\<in>set []. e = Sleep \<or> is_print e" by simp
  moreover have "[] = concat (map dry_events [])" by simp
  ultimately show ?case by blast
next
  case (Cons x xs)
  from process_podcast_dry[OF assms] obtain t r where
      x: "process_podcast env cfg pc x w = (w\<lparr>trace := trace w @ t\<rparr>, r)"
      and tp: "\<forall>e\<in>set t. e = Sleep \<or> is_print e" and tn: "r = None \<longrightarrow> t = dry_events x"
    by blast
  show ?case
  proof (cases r)
    case (Some e)
    with x have "for_each (process_podcast env cfg pc) (x # xs) w
        = (w\<lparr>trace := trace w @ t\<rparr>, Some e)" by simp
    with tp show ?thesis by blast
  next
    case None
    from Cons.IH[of "w\<lparr>trace := trace w @ t\<rparr>"] obtain t' r' where
        r: "for_each (process_podcast env cfg pc) xs (w\<lparr>trace := trace w @ t\<rparr>)
              = (w\<lparr>trace := trace w @ t\<rparr>\<lparr>trace := trace (w\<lparr>trace := trace w @ t\<rparr>) @ t'\<rparr>, r')"
        and tp': "\<forall>e\<in>set t'. e = Sleep \<or> is_print e"
        and tn': "r' = None \<longrightarrow> t' = concat (map dry_events xs)"
      by blast
    from x None r have "for_each (process_podcast env cfg pc) (x # xs) w
        = (w\<lparr>trace := trace w @ (t @ t')\<rparr>, r')" by simp
    moreover from tp tp' have "\<forall>e\<in>set (t @ t'). e = Sleep \<or> is_print e" by auto
    moreover from tn tn' None have "r' = None \<longrightarrow> t @ t' = concat (map dry_events (x # xs))"
      by simp
    ultimately show ?thesis by blast
  qed
qed

lemma get_rss_dry: "get_rss env (cfg\<lparr>dryRun := b\<rparr>) loc w = get_rss env cfg loc w"
  by (simp add: get_rss_def split: prod.splits sum.splits option.splits)

text \<open>
  C5, as the code has it. The dry-run flag is read in \<^verbatim>\<open>process_podcast\<close> only. What
  \<^verbatim>\<open>main\<close> does for a source before its episodes (creating the directory, fetching the feed
  and the channel artwork, writing the cover) does not depend on the flag. In dry-run mode
  the loop over the episodes changes no file and adds only printed lines and pauses to the
  trace; when no episode raises, each episode contributes, in iteration order, its title
  line, the dry-run notice and one pause.
\<close>

theorem dry_run_gates_episodes_only:
  "setup_source env (cfg\<lparr>dryRun := b\<rparr>) ip w = setup_source env cfg ip w
   \<and> (dryRun cfg \<longrightarrow>
       (\<exists>t r. for_each (process_podcast env cfg pc) xs w = (w\<lparr>trace := trace w @ t\<rparr>, r)
           \<and> (\<forall>e\<in>set t. e = Sleep \<or> is_print e)
           \<and> (r = None \<longrightarrow> t = concat (map dry_events xs))))"
proof
  show "setup_source env (cfg\<lparr>dryRun := b\<rparr>) ip w = setup_source env cfg ip w"
    by (simp add: setup_source_def get_rss_dry Let_def split: sum.split)
  show "dryRun cfg \<longrightarrow>
       (\<exists>t r. for_each (process_podcast env cfg pc) xs w = (w\<lparr>trace := trace w @ t\<rparr>, r)
           \<and> (\<forall>e\<in>set t. e = Sleep \<or> is_print e)
           \<and> (r = None \<longrightarrow> t = concat (map dry_events xs)))"
    using episodes_dry by blast
qed

section \<open>The concrete run, evaluated\<close>

lemmas run_defs = main_def process_source_def setup_source_def get_rss_def requests_get_def
  makedirs_def write_file_def isdir_def path_exists_def emit_def read_text_def
  process_podcast_def download_def episode_art_def resolve_url_def read_tags_def
  extract_date_def date_sort_def ns_dict_def truthy_def frames_of_def update_metadata_def
  filename_of_def out_date_def zfill_def str_nat_digit str_nat_more fmt_def
  clean_filename_def is_space_def good_character_parts accented_capitals_def
  enumerate_simps Let_def

lemmas demo_defs = demo_env_def demo_cfg_def demo_pod_def demo_feed_def demo_feed_url_def demo_feed_bytes_def
  ep_jan_def ep_feb_def ep_mar_def empty_world_def ascii_def

lemma demo_run_ok: "snd (main demo_env demo_cfg empty_world) = None"
  by (simp add: run_defs demo_defs)

lemma flaky_run:
  "snd (main flaky_env demo_cfg empty_world) = Some RequestException"
  by (simp add: run_defs flaky_env_def demo_defs)

lemma flaky_trace:
  "trace (fst (main flaky_env demo_cfg empty_world)) =
     [Print (Starting 1 (ascii ''Pod'')), MakeDirs (ascii ''out/Pod/''),
      FetchFeed (ascii ''http://feeds.example/pod.xml''),
      FetchChannelArt (ascii ''http://img.example/c.jpg''),
      WriteCover (ascii ''out/Pod/cover.jpg''),
      Print (WorkingOn (Some (ascii ''Pilot''))), Print NoEpisodeArt,
      Print (Downloading (ascii ''2023-01-10_ep1_Pilot.mp3'')),
      FetchMedia (ascii ''http://media.example/1.mp3'')]"
  by (simp add: run_defs flaky_env_def demo_defs)

lemma dry_trace:
  "trace (fst (main demo_env (demo_cfg\<lparr>dryRun := True\<rparr>) empty_world)) =
     [Print (Starting 1 (ascii ''Pod'')), MakeDirs (ascii ''out/Pod/''),
      FetchFeed (ascii ''http://feeds.example/pod.xml''),
      FetchChannelArt (ascii ''http://img.example/c.jpg''),
      WriteCover (ascii ''out/Pod/cover.jpg''),
      Print (WorkingOn (Some (ascii ''Pilot''))), Print DryRunSleeping, Sleep,
      Print (WorkingOn (Some (ascii ''Second''))), Print DryRunSleeping, Sleep,
      Print (WorkingOn (Some (ascii ''Third''))), Print DryRunSleeping, Sleep]"
  by (simp add: run_defs demo_defs)

lemma dry_fs:
  "fs (fst (main demo_env (demo_cfg\<lparr>dryRun := True\<rparr>) empty_world)) (ascii ''out/Pod/cover.jpg'')
     = Some (File [1])"
  "fs (fst (main demo_env (demo_cfg\<lparr>dryRun := True\<rparr>) empty_world)) (ascii ''out/Pod/'')
     = Some Dir"
  by (simp_all add: run_defs demo_defs)

lemma demo_feb_exists: "path_exists feb_world (ascii ''out/Pod/2023-02-15_ep2_SecondNone'')"
  by (simp add: path_exists_def feb_world_def)

lemma demo_not_dry: "\<not> dryRun demo_cfg"
  by (simp add: demo_cfg_def)

lemma filtered_feb_path:
  "derive_path demo_env filtered_pc 2 ep_feb = Inr (ascii ''out/Pod/2023-02-15_ep2_SecondNone'')"
  by (simp add: derive_path_def demo_feb_tags demo_feb_filename)
     (simp add: filtered_pc_def demo_pc_def ascii_def)

lemma filtered_feb_resolve:
  "resolve_url demo_env (episodeUrlFilter (source filtered_pc))
     (Some (ascii ''http://media.example/2.mp3''))
   = Inl IndexError"
  by (simp add: resolve_url_def filtered_pc_def demo_pc_def demo_pod_def demo_env_def
        demo_pattern_def ascii_def)

lemma demo_feb_resolve:
  "resolve_url demo_env (episodeUrlFilter (source demo_pc))
     (Some (ascii ''http://media.example/2.mp3''))
   = Inr (Some (ascii ''http://media.example/2.mp3''))"
  by (simp add: resolve_url_def demo_pc_def demo_pod_def)

theorem existing_path_is_skipped_witness:
  "derive_path demo_env demo_pc 2 ep_feb = Inr (ascii ''out/Pod/2023-02-15_ep2_SecondNone'')
   \<and> path_exists feb_world (ascii ''out/Pod/2023-02-15_ep2_SecondNone'')
   \<and> \<not> dryRun demo_cfg
   \<and> process_podcast demo_env demo_cfg demo_pc (2, ep_feb) feb_world
       = (feb_world\<lparr>trace := trace feb_world @
            [Print (WorkingOn (Some (ascii ''Second''))), Print Skipping, Print (Track 2),
             Print (FileName (ascii ''2023-02-15_ep2_SecondNone''))]\<rparr>, None)
   \<and> derive_path demo_env filtered_pc 2 ep_feb
       = Inr (ascii ''out/Pod/2023-02-15_ep2_SecondNone'')
   \<and> process_podcast demo_env demo_cfg filtered_pc (2, ep_feb) feb_world
       = (feb_world\<lparr>trace := trace feb_world @
            [Print (WorkingOn (Some (ascii ''Second'')))]\<rparr>, Some IndexError)
   \<and> main demo_env demo_cfg empty_world = (fst (main demo_env demo_cfg empty_world), None)
   \<and> (\<exists>w2 t. main demo_env demo_cfg (fst (main demo_env demo_cfg empty_world)) = (w2, None)
           \<and> trace w2 = trace (fst (main demo_env demo_cfg empty_world)) @ t
           \<and> (\<forall>e\<in>set t. \<not> episode_io e)
           \<and> (\<forall>q. path_exists w2 q = path_exists (fst (main demo_env demo_cfg empty_world)) q)
           \<and> (\<forall>q. WriteCover q \<notin> set t \<longrightarrow>
                  fs w2 q = fs (fst (main demo_env demo_cfg empty_world)) q)
           \<and> length (filter (\<lambda>e. e = Print Skipping) t) = length (filter is_working t))"
proof -
  let ?p = "ascii ''out/Pod/2023-02-15_ep2_SecondNone''"
  let ?w1 = "fst (main demo_env demo_cfg empty_world)"
  have m: "main demo_env demo_cfg empty_world = (?w1, None)"
    using demo_run_ok by (simp add: prod_eq_iff)
  note t = existing_path_is_skipped [where env = demo_env and cfg = demo_cfg and pc = demo_pc
      and n = 2 and episode = ep_feb and p = ?p and w = feb_world and ?w0.0 = empty_world
      and ?w1.0 = ?w1]
  note u = existing_path_is_skipped [where env = demo_env and cfg = demo_cfg
      and pc = filtered_pc and n = 2 and episode = ep_feb and p = ?p and w = feb_world]
  from t demo_feb_path demo_feb_exists demo_not_dry
  obtain tags where "read_tags demo_env ep_feb = Inr tags"
      and c: "case resolve_url demo_env (episodeUrlFilter (source demo_pc)) (rawURL tags) of
                Inl e \<Rightarrow>
                  process_podcast demo_env demo_cfg demo_pc (2, ep_feb) feb_world
                    = (feb_world\<lparr>trace := trace feb_world @ [Print (WorkingOn (title tags))]\<rparr>,
                       Some e)
              | Inr url \<Rightarrow>
                  process_podcast demo_env demo_cfg demo_pc (2, ep_feb) feb_world
                    = (feb_world\<lparr>trace := trace feb_world @
                          [Print (WorkingOn (title tags)), Print Skipping, Print (Track 2),
                           Print (FileName (filename_of 2 tags))]\<rparr>, None)"
    by blast
  with demo_feb_tags demo_feb_resolve demo_feb_filename
  have a: "process_podcast demo_env demo_cfg demo_pc (2, ep_feb) feb_world
       = (feb_world\<lparr>trace := trace feb_world @
            [Print (WorkingOn (Some (ascii ''Second''))), Print Skipping, Print (Track 2),
             Print (FileName (ascii ''2023-02-15_ep2_SecondNone''))]\<rparr>, None)"
    by auto
  from u filtered_feb_path demo_feb_exists demo_not_dry
  obtain tags' where "read_tags demo_env ep_feb = Inr tags'"
      and c': "case resolve_url demo_env (episodeUrlFilter (source filtered_pc)) (rawURL tags') of
                Inl e \<Rightarrow>
                  process_podcast demo_env demo_cfg filtered_pc (2, ep_feb) feb_world
                    = (feb_world\<lparr>trace := trace feb_world @ [Print (WorkingOn (title tags'))]\<rparr>,
                       Some e)
              | Inr url \<Rightarrow>
                  process_podcast demo_env demo_cfg filtered_pc (2, ep_feb) feb_world
                    = (feb_world\<lparr>trace := trace feb_world @
                          [Print (WorkingOn (title tags')), Print Skipping, Print (Track 2),
                           Print (FileName (filename_of 2 tags'))]\<rparr>, None)"
    by blast
  with demo_feb_tags filtered_feb_resolve
  have a': "process_podcast demo_env demo_cfg filtered_pc (2, ep_feb) feb_world
       = (feb_world\<lparr>trace := trace feb_world @
            [Print (WorkingOn (Some (ascii ''Second'')))]\<rparr>, Some IndexError)"
    by auto
  from t demo_not_dry m
  have b: "\<exists>w2 t. main demo_env demo_cfg ?w1 = (w2, None)
           \<and> trace w2 = trace ?w1 @ t
           \<and> (\<forall>e\<in>set t. \<not> episode_io e)
           \<and> (\<forall>q. path_exists w2 q = path_exists ?w1 q)
           \<and> (\<forall>q. WriteCover q \<notin> set t \<longrightarrow> fs w2 q = fs ?w1 q)
           \<and> length (filter (\<lambda>e. e = Print Skipping) t) = length (filter is_working t)"
    by blast
  from demo_feb_path demo_feb_exists demo_not_dry a filtered_feb_path a' m b
  show ?thesis by (intro conjI)
qed

text \<open>
  C1, as the specification states it: an episode whose destination path exists would be
  skipped. With a configured filter that does not match the media URL, the path exists,
  dry-run is off, and \<^verbatim>\<open>process_podcast\<close> raises \<^verbatim>\<open>IndexError\<close> after the title line: no skip
  notice is printed and the run ends.
\<close>

theorem existing_path_not_skipped_counterexample:
  "derive_path demo_env filtered_pc 2 ep_feb = Inr (ascii ''out/Pod/2023-02-15_ep2_SecondNone'')
   \<and> path_exists feb_world (ascii ''out/Pod/2023-02-15_ep2_SecondNone'')
   \<and> \<not> dryRun demo_cfg
   \<and> snd (process_podcast demo_env demo_cfg filtered_pc (2, ep_feb) feb_world) = Some IndexError
   \<and> trace (fst (process_podcast demo_env demo_cfg filtered_pc (2, ep_feb) feb_world))
       = [Print (WorkingOn (Some (ascii ''Second'')))]
   \<and> Print Skipping \<notin> set (trace (fst (process_podcast demo_env demo_cfg filtered_pc
                                        (2, ep_feb) feb_world)))"
proof -
  have e: "process_podcast demo_env demo_cfg filtered_pc (2, ep_feb) feb_world
       = (emit (Print (WorkingOn (Some (ascii ''Second'')))) feb_world, Some IndexError)"
    by (simp add: process_podcast_def Let_def demo_feb_tags filtered_feb_resolve)
  have t: "trace feb_world = []" by (simp add: feb_world_def)
  from filtered_feb_path demo_feb_exists demo_not_dry e t show ?thesis by simp
qed

lemma flaky_setup:
  "setup_source flaky_env demo_cfg (0, demo_pod) empty_world = (flaky_w0, Inr demo_pc)"
proof -
  have "snd (setup_source flaky_env demo_cfg (0, demo_pod) empty_world) = Inr demo_pc"
    by (simp add: run_defs flaky_env_def demo_defs demo_pc_def)
  then show ?thesis by (simp add: flaky_w0_def prod_eq_iff)
qed

lemma flaky_first:
  "process_podcast flaky_env demo_cfg demo_pc (1, ep_jan) flaky_w0 = (flaky_w2, Some RequestException)"
proof -
  have "snd (process_podcast flaky_env demo_cfg demo_pc (1, ep_jan) flaky_w0) = Some RequestException"
    by (simp add: flaky_w0_def run_defs flaky_env_def demo_defs demo_pc_def)
  then show ?thesis by (simp add: flaky_w2_def prod_eq_iff)
qed

lemma demo_enumerate:
  "List.enumerate 1 (episodes demo_pc) = [] @ (1, ep_jan) # [(2, ep_feb), (3, ep_mar)]"
  by (simp add: demo_pc_def enumerate_simps)

theorem episode_failure_stops_source_witness:
  "setup_source flaky_env demo_cfg (0, demo_pod) empty_world = (flaky_w0, Inr demo_pc)
   \<and> List.enumerate 1 (episodes demo_pc) = [] @ (1, ep_jan) # [(2, ep_feb), (3, ep_mar)]
   \<and> for_each (process_podcast flaky_env demo_cfg demo_pc) [] flaky_w0 = (flaky_w0, None)
   \<and> process_podcast flaky_env demo_cfg demo_pc (1, ep_jan) flaky_w0
       = (flaky_w2, Some RequestException)
   \<and> process_source flaky_env demo_cfg (0, demo_pod) empty_world
       = (flaky_w2, Some RequestException)
   \<and> for_each (process_source flaky_env demo_cfg) [(0, demo_pod)] empty_world
       = (flaky_w2, Some RequestException)"
proof -
  have n: "for_each (process_podcast flaky_env demo_cfg demo_pc) [] flaky_w0 = (flaky_w0, None)"
    by simp
  from episode_failure_stops_source [where env = flaky_env and cfg = demo_cfg
      and ip = "(0, demo_pod)" and w = empty_world and ?w0.0 = flaky_w0 and pc = demo_pc
      and before = "[]" and ie = "(1, ep_jan)" and rest = "[(2, ep_feb), (3, ep_mar)]"
      and ?w1.0 = flaky_w0 and ?w2.0 = flaky_w2 and e = RequestException and ips = "[]"]
    flaky_setup demo_enumerate n flaky_first
  have "process_source flaky_env demo_cfg (0, demo_pod) empty_world
          = (flaky_w2, Some RequestException)
       \<and> for_each (process_source flaky_env demo_cfg) [(0, demo_pod)] empty_world
          = (flaky_w2, Some RequestException)"
    by blast
  with flaky_setup demo_enumerate n flaky_first show ?thesis by (intro conjI) blast+
qed

text \<open>
  C4, as the specification states it: the episodes after a failing one would still be
  attempted. With the media request of the first episode failing, the run ends with that
  exception right after the request; the second and third episode are never started.
\<close>

theorem episode_failure_counterexample:
  "snd (main flaky_env demo_cfg empty_world) = Some RequestException
   \<and> trace (fst (main flaky_env demo_cfg empty_world)) =
       [Print (Starting 1 (ascii ''Pod'')), MakeDirs (ascii ''out/Pod/''),
        FetchFeed (ascii ''http://feeds.example/pod.xml''),
        FetchChannelArt (ascii ''http://img.example/c.jpg''),
        WriteCover (ascii ''out/Pod/cover.jpg''),
        Print (WorkingOn (Some (ascii ''Pilot''))), Print NoEpisodeArt,
        Print (Downloading (ascii ''2023-01-10_ep1_Pilot.mp3'')),
        FetchMedia (ascii ''http://media.example/1.mp3'')]
   \<and> Print (WorkingOn (Some (ascii ''Second''))) \<notin> set (trace (fst (main flaky_env demo_cfg empty_world)))
   \<and> Print (WorkingOn (Some (ascii ''Third''))) \<notin> set (trace (fst (main flaky_env demo_cfg empty_world)))"
  by (simp add: flaky_run flaky_trace) (simp add: ascii_def)

theorem dry_run_gates_episodes_only_witness:
  "dryRun (demo_cfg\<lparr>dryRun := True\<rparr>)
   \<and> setup_source demo_env (demo_cfg\<lparr>dryRun := True\<rparr>) (0, demo_pod) empty_world
       = setup_source demo_env demo_cfg (0, demo_pod) empty_world
   \<and> (\<exists>t r. for_each (process_podcast demo_env (demo_cfg\<lparr>dryRun := True\<rparr>) demo_pc)
                 (List.enumerate 1 (episodes demo_pc)) empty_world
               = (empty_world\<lparr>trace := trace empty_world @ t\<rparr>, r)
           \<and> (\<forall>e\<in>set t. e = Sleep \<or> is_print e)
           \<and> (r = None \<longrightarrow> t = concat (map dry_events (List.enumerate 1 (episodes demo_pc)))))"
proof -
  have d: "dryRun (demo_cfg\<lparr>dryRun := True\<rparr>)" by simp
  from dry_run_gates_episodes_only [where env = demo_env and cfg = demo_cfg and b = True
      and ip = "(0, demo_pod)" and w = empty_world]
  have a: "setup_source demo_env (demo_cfg\<lparr>dryRun := True\<rparr>) (0, demo_pod) empty_world
       = setup_source demo_env demo_cfg (0, demo_pod) empty_world"
    by (rule conjunct1)
  from dry_run_gates_episodes_only [where env = demo_env and cfg = "demo_cfg\<lparr>dryRun := True\<rparr>"
      and pc = demo_pc and xs = "List.enumerate 1 (episodes demo_pc)" and w = empty_world] d
  have b: "\<exists>t r. for_each (process_podcast demo_env (demo_cfg\<lparr>dryRun := True\<rparr>) demo_pc)
                 (List.enumerate 1 (episodes demo_pc)) empty_world
               = (empty_world\<lparr>trace := trace empty_world @ t\<rparr>, r)
           \<and> (\<forall>e\<in>set t. e = Sleep \<or> is_print e)
           \<and> (r = None \<longrightarrow> t = concat (map dry_events (List.enumerate 1 (episodes demo_pc))))"
    by blast
  from d a b show ?thesis by (intro conjI)
qed

text \<open>
  C5, as the specification states it: a dry run would make no request and no write
  anywhere. On the example it creates the directory of the source, requests the feed and
  the channel artwork and writes the cover file.
\<close>

theorem dry_run_counterexample:
  "dryRun (demo_cfg\<lparr>dryRun := True\<rparr>)
   \<and> trace empty_world = []
   \<and> trace (fst (main demo_env (demo_cfg\<lparr>dryRun := True\<rparr>) empty_world)) =
     [Print (Starting 1 (ascii ''Pod'')), MakeDirs (ascii ''out/Pod/''),
      FetchFeed (ascii ''http://feeds.example/pod.xml''),
      FetchChannelArt (ascii ''http://img.example/c.jpg''),
      WriteCover (ascii ''out/Pod/cover.jpg''),
      Print (WorkingOn (Some (ascii ''Pilot''))), Print DryRunSleeping, Sleep,
      Print (WorkingOn (Some (ascii ''Second''))), Print DryRunSleeping, Sleep,
      Print (WorkingOn (Some (ascii ''Third''))), Print DryRunSleeping, Sleep]
   \<and> fs empty_world (ascii ''out/Pod/'') = None
   \<and> fs (fst (main demo_env (demo_cfg\<lparr>dryRun := True\<rparr>) empty_world)) (ascii ''out/Pod/'')
       = Some Dir
   \<and> fs empty_world (ascii ''out/Pod/cover.jpg'') = None
   \<and> fs (fst (main demo_env (demo_cfg\<lparr>dryRun := True\<rparr>) empty_world))
         (ascii ''out/Pod/cover.jpg'') = Some (File [1])"
  by (simp add: dry_trace dry_fs) (simp add: empty_world_def)

section \<open>The order and the numbers of the episodes in a run\<close>

lemma get_rss_http:
  "get_rss env cfg loc w = (w', Inr xn) \<Longrightarrow> \<exists>r. http_get env loc = Some r \<and> fst xn = content r"
  by (auto simp: get_rss_def requests_get_def split: if_splits option.splits sum.splits)

lemma keyed_parses:
  "keyed env l = Inr ks \<Longrightarrow> \<forall>e\<in>set l. extract_date env e = Inr (projr (extract_date env e))"
  by (induction l arbitrary: ks) (auto split: sum.splits)

lemma date_sort_parses:
  "date_sort env l = Inr eps \<Longrightarrow> \<forall>e\<in>set l. extract_date env e = Inr (projr (extract_date env e))"
  by (auto simp: date_sort_def split: sum.splits dest: keyed_parses)

lemma setup_source_feed:
  assumes "setup_source env cfg ip w = (w', Inr pc)"
  shows "\<exists>r root. http_get env (rssFeedUrl (snd ip)) = Some r
           \<and> fromstring env (content r) = Some root
           \<and> date_sort env (items root) = Inr (episodes pc)"
proof -
  from assms obtain w2 w3 xn root eps where
      g: "get_rss env cfg (rssFeedUrl (snd ip)) w2 = (w3, Inr xn)"
      and fr: "fromstring env (fst xn) = Some root"
      and ds: "date_sort env (items root) = Inr eps"
      and pc: "episodes pc = eps"
    unfolding setup_source_Inr by auto
  from get_rss_http[OF g] obtain r where
      "http_get env (rssFeedUrl (snd ip)) = Some r" "fst xn = content r" by blast
  with fr ds pc show ?thesis by auto
qed

text \<open>
  C2. For every list of items whose publication dates parse, \<^verbatim>\<open>date_sort\<close> returns the
  items sorted ascending by timestamp; the sort is a permutation and stable (the items of
  any one timestamp keep their feed order); numbered from 1 the result carries the numbers
  1 to N, which increase strictly with the timestamp when the timestamps are distinct.
  And this is what a run does with a source: when the setup of the source succeeds, the
  episodes it stores are \<^verbatim>\<open>date_sort\<close> of the items of the feed that was fetched and parsed,
  every one of their dates parses, and the source is processed by calling
  \<^verbatim>\<open>process_podcast\<close>, in this order, on the pairs of the numbers 1 to N with the sorted
  episodes: the first component is the sequence number of the file name and of the track.
\<close>

theorem date_sort_orders:
  "((\<forall>e\<in>set episode_list. extract_date env e = Inr (ts e)) \<longrightarrow>
      (\<exists>eps. date_sort env episode_list = Inr eps
         \<and> mset eps = mset episode_list
         \<and> sorted (map (\<lambda>e. utc_instant (ts e)) eps)
         \<and> (\<forall>k. filter (\<lambda>e. utc_instant (ts e) = k) eps
                 = filter (\<lambda>e. utc_instant (ts e) = k) episode_list)
         \<and> map fst (List.enumerate 1 eps) = [1..<Suc (length episode_list)]
         \<and> map snd (List.enumerate 1 eps) = eps
         \<and> (distinct (map (\<lambda>e. utc_instant (ts e)) episode_list) \<longrightarrow>
              (\<forall>p\<in>set (List.enumerate 1 eps). \<forall>q\<in>set (List.enumerate 1 eps).
                 fst p < fst q \<longleftrightarrow> utc_instant (ts (snd p)) < utc_instant (ts (snd q))))))
   \<and> (setup_source env cfg ip w = (w', Inr pc) \<longrightarrow>
      (\<exists>r root.
           http_get env (rssFeedUrl (snd ip)) = Some r
         \<and> fromstring env (content r) = Some root
         \<and> (\<forall>e\<in>set (items root). extract_date env e = Inr (projr (extract_date env e)))
         \<and> date_sort env (items root) = Inr (episodes pc)
         \<and> mset (episodes pc) = mset (items root)
         \<and> sorted (map (\<lambda>e. utc_instant (projr (extract_date env e))) (episodes pc))
         \<and> (\<forall>k. filter (\<lambda>e. utc_instant (projr (extract_date env e)) = k) (episodes pc)
                 = filter (\<lambda>e. utc_instant (projr (extract_date env e)) = k) (items root))
         \<and> process_source env cfg ip w
             = for_each (process_podcast env cfg pc)
                 (zip [1..<Suc (length (items root))] (episodes pc)) w'
         \<and> (distinct (map (\<lambda>e. utc_instant (projr (extract_date env e))) (items root)) \<longrightarrow>
              (\<forall>p\<in>set (zip [1..<Suc (length (items root))] (episodes pc)).
               \<forall>q\<in>set (zip [1..<Suc (length (items root))] (episodes pc)).
                 fst p < fst q \<longleftrightarrow>
                   utc_instant (projr (extract_date env (snd p)))
                     < utc_instant (projr (extract_date env (snd q)))))))"
proof (intro conjI impI)
  assume "\<forall>e\<in>set episode_list. extract_date env e = Inr (ts e)"
  then show "\<exists>eps. date_sort env episode_list = Inr eps
         \<and> mset eps = mset episode_list
         \<and> sorted (map (\<lambda>e. utc_instant (ts e)) eps)
         \<and> (\<forall>k. filter (\<lambda>e. utc_instant (ts e) = k) eps
                 = filter (\<lambda>e. utc_instant (ts e) = k) episode_list)
         \<and> map fst (List.enumerate 1 eps) = [1..<Suc (length episode_list)]
         \<and> map snd (List.enumerate 1 eps) = eps
         \<and> (distinct (map (\<lambda>e. utc_instant (ts e)) episode_list) \<longrightarrow>
              (\<forall>p\<in>set (List.enumerate 1 eps). \<forall>q\<in>set (List.enumerate 1 eps).
                 fst p < fst q \<longleftrightarrow> utc_instant (ts (snd p)) < utc_instant (ts (snd q))))"
    by (rule date_sort_props)
next
  let ?ts = "\<lambda>e. projr (extract_date env e)"
  assume s: "setup_source env cfg ip w = (w', Inr pc)"
  from setup_source_feed[OF s] obtain r root where
      h: "http_get env (rssFeedUrl (snd ip)) = Some r"
      and f: "fromstring env (content r) = Some root"
      and d: "date_sort env (items root) = Inr (episodes pc)"
    by blast
  from d have pa: "\<forall>e\<in>set (items root). extract_date env e = Inr (?ts e)"
    by (rule date_sort_parses)
  from date_sort_props[OF pa] d
  have m: "mset (episodes pc) = mset (items root)"
    and so: "sorted (map (\<lambda>e. utc_instant (?ts e)) (episodes pc))"
    and st: "\<forall>k. filter (\<lambda>e. utc_instant (?ts e) = k) (episodes pc)
                 = filter (\<lambda>e. utc_instant (?ts e) = k) (items root)"
    and sx: "distinct (map (\<lambda>e. utc_instant (?ts e)) (items root)) \<longrightarrow>
              (\<forall>p\<in>set (List.enumerate 1 (episodes pc)). \<forall>q\<in>set (List.enumerate 1 (episodes pc)).
                 fst p < fst q \<longleftrightarrow> utc_instant (?ts (snd p)) < utc_instant (?ts (snd q)))"
    by auto
  from m have "length (episodes pc) = length (items root)" by (rule mset_eq_length)
  then have en: "List.enumerate 1 (episodes pc)
                   = zip [1..<Suc (length (items root))] (episodes pc)"
    by (simp add: enumerate_eq_zip)
  from s have ps: "process_source env cfg ip w
             = for_each (process_podcast env cfg pc) (List.enumerate 1 (episodes pc)) w'"
    by (simp add: process_source_def)
  from h f pa d m so st ps sx
  show "\<exists>r root.
           http_get env (rssFeedUrl (snd ip)) = Some r
         \<and> fromstring env (content r) = Some root
         \<and> (\<forall>e\<in>set (items root). extract_date env e = Inr (projr (extract_date env e)))
         \<and> date_sort env (items root) = Inr (episodes pc)
         \<and> mset (episodes pc) = mset (items root)
         \<and> sorted (map (\<lambda>e. utc_instant (projr (extract_date env e))) (episodes pc))
         \<and> (\<forall>k. filter (\<lambda>e. utc_instant (projr (extract_date env e)) = k) (episodes pc)
                 = filter (\<lambda>e. utc_instant (projr (extract_date env e)) = k) (items root))
         \<and> process_source env cfg ip w
             = for_each (process_podcast env cfg pc)
                 (zip [1..<Suc (length (items root))] (episodes pc)) w'
         \<and> (distinct (map (\<lambda>e. utc_instant (projr (extract_date env e))) (items root)) \<longrightarrow>
              (\<forall>p\<in>set (zip [1..<Suc (length (items root))] (episodes pc)).
               \<forall>q\<in>set (zip [1..<Suc (length (items root))] (episodes pc)).
                 fst p < fst q \<longleftrightarrow>
                   utc_instant (projr (extract_date env (snd p)))
                     < utc_instant (projr (extract_date env (snd q)))))"
    unfolding en by blast
qed

lemma demo_setup:
  "setup_source demo_env demo_cfg (0, demo_pod) empty_world = (demo_w0, Inr demo_pc)"
proof -
  have "snd (setup_source demo_env demo_cfg (0, demo_pod) empty_world) = Inr demo_pc"
    by (simp add: run_defs demo_defs demo_pc_def)
  then show ?thesis by (simp add: demo_w0_def prod_eq_iff)
qed

lemma demo_http_feed:
  "http_get demo_env (rssFeedUrl (snd (0::nat, demo_pod)))
     = Some \<lparr>content = demo_feed_bytes, content_type = Some (ascii ''application/rss+xml'')\<rparr>"
  by (simp add: demo_env_def demo_pod_def)

lemma demo_fromstring: "fromstring demo_env demo_feed_bytes = Some demo_feed"
  by (simp add: demo_env_def)

lemma demo_zip:
  "zip [1..<Suc (length (items demo_feed))] (episodes demo_pc)
     = [(1, ep_jan), (2, ep_feb), (3, ep_mar)]"
  by (simp add: demo_feed_def demo_pc_def upt_rec)

lemma demo_trace:
  "trace (fst (main demo_env demo_cfg empty_world)) =
     [Print (Starting 1 (ascii ''Pod'')), MakeDirs (ascii ''out/Pod/''),
      FetchFeed (ascii ''http://feeds.example/pod.xml''),
      FetchChannelArt (ascii ''http://img.example/c.jpg''),
      WriteCover (ascii ''out/Pod/cover.jpg''),
      Print (WorkingOn (Some (ascii ''Pilot''))), Print NoEpisodeArt,
      Print (Downloading (ascii ''2023-01-10_ep1_Pilot.mp3'')),
      FetchMedia (ascii ''http://media.example/1.mp3''),
      Print (Saving (ascii ''2023-01-10_ep1_Pilot.mp3'')),
      WriteEpisode (ascii ''out/Pod/2023-01-10_ep1_Pilot.mp3''),
      SaveTags (ascii ''out/Pod/2023-01-10_ep1_Pilot.mp3''),
      Print (WorkingOn (Some (ascii ''Second''))), Print NoEpisodeArt,
      Print (Downloading (ascii ''2023-02-15_ep2_SecondNone'')),
      FetchMedia (ascii ''http://media.example/2.mp3''),
      Print (Saving (ascii ''2023-02-15_ep2_SecondNone'')),
      WriteEpisode (ascii ''out/Pod/2023-02-15_ep2_SecondNone''),
      SaveTags (ascii ''out/Pod/2023-02-15_ep2_SecondNone''),
      Print (WorkingOn (Some (ascii ''Third''))),
      FetchEpisodeArt (ascii ''http://img.example/e3.jpg''),
      Print (Downloading (ascii ''2023-03-01_ep3_Third.mp3'')),
      FetchMedia (ascii ''http://media.example/3.mp3''),
      Print (Saving (ascii ''2023-03-01_ep3_Third.mp3'')),
      WriteEpisode (ascii ''out/Pod/2023-03-01_ep3_Third.mp3''),
      SaveTags (ascii ''out/Pod/2023-03-01_ep3_Third.mp3'')]"
  by (simp add: run_defs demo_defs)

theorem date_sort_orders_witness:
  "extract_date demo_env ep_jan = Inr \<lparr>utc_instant = 1673337600, year = 2023, month = 1, day = 10\<rparr>
   \<and> extract_date demo_env ep_mar = Inr \<lparr>utc_instant = 1677657600, year = 2023, month = 3, day = 1\<rparr>
   \<and> extract_date demo_env ep_feb = Inr \<lparr>utc_instant = 1676448000, year = 2023, month = 2, day = 15\<rparr>
   \<and> date_sort demo_env [ep_jan, ep_mar, ep_feb] = Inr [ep_jan, ep_feb, ep_mar]
   \<and> List.enumerate 1 [ep_jan, ep_feb, ep_mar] = [(1, ep_jan), (2, ep_feb), (3, ep_mar)]
   \<and> (\<exists>eps. date_sort demo_env [ep_jan, ep_mar, ep_feb] = Inr eps
         \<and> mset eps = mset [ep_jan, ep_mar, ep_feb]
         \<and> sorted (map (\<lambda>e. utc_instant (projr (extract_date demo_env e))) eps)
         \<and> map fst (List.enumerate 1 eps) = [1, 2, 3])
   \<and> setup_source demo_env demo_cfg (0, demo_pod) empty_world = (demo_w0, Inr demo_pc)
   \<and> items demo_feed = [ep_jan, ep_mar, ep_feb]
   \<and> episodes demo_pc = [ep_jan, ep_feb, ep_mar]
   \<and> process_source demo_env demo_cfg (0, demo_pod) empty_world
       = for_each (process_podcast demo_env demo_cfg demo_pc)
           [(1, ep_jan), (2, ep_feb), (3, ep_mar)] demo_w0
   \<and> trace (fst (main demo_env demo_cfg empty_world)) =
     [Print (Starting 1 (ascii ''Pod'')), MakeDirs (ascii ''out/Pod/''),
      FetchFeed (ascii ''http://feeds.example/pod.xml''),
      FetchChannelArt (ascii ''http://img.example/c.jpg''),
      WriteCover (ascii ''out/Pod/cover.jpg''),
      Print (WorkingOn (Some (ascii ''Pilot''))), Print NoEpisodeArt,
      Print (Downloading (ascii ''2023-01-10_ep1_Pilot.mp3'')),
      FetchMedia (ascii ''http://media.example/1.mp3''),
      Print (Saving (ascii ''2023-01-10_ep1_Pilot.mp3'')),
      WriteEpisode (ascii ''out/Pod/2023-01-10_ep1_Pilot.mp3''),
      SaveTags (ascii ''out/Pod/2023-01-10_ep1_Pilot.mp3''),
      Print (WorkingOn (Some (ascii ''Second''))), Print NoEpisodeArt,
      Print (Downloading (ascii ''2023-02-15_ep2_SecondNone'')),
      FetchMedia (ascii ''http://media.example/2.mp3''),
      Print (Saving (ascii ''2023-02-15_ep2_SecondNone'')),
      WriteEpisode (ascii ''out/Pod/2023-02-15_ep2_SecondNone''),
      SaveTags (ascii ''out/Pod/2023-02-15_ep2_SecondNone''),
      Print (WorkingOn (Some (ascii ''Third''))),
      FetchEpisodeArt (ascii ''http://img.example/e3.jpg''),
      Print (Downloading (ascii ''2023-03-01_ep3_Third.mp3'')),
      FetchMedia (ascii ''http://media.example/3.mp3''),
      Print (Saving (ascii ''2023-03-01_ep3_Third.mp3'')),
      WriteEpisode (ascii ''out/Pod/2023-03-01_ep3_Third.mp3''),
      SaveTags (ascii ''out/Pod/2023-03-01_ep3_Third.mp3'')]"
proof -
  let ?ts = "\<lambda>e. projr (extract_date demo_env e)"
  note t = date_sort_orders [where episode_list = "[ep_jan, ep_mar, ep_feb]" and env = demo_env
      and ts = ?ts and cfg = demo_cfg and ip = "(0, demo_pod)" and w = empty_world
      and w' = demo_w0 and pc = demo_pc]
  have h: "\<forall>e\<in>set [ep_jan, ep_mar, ep_feb]. extract_date demo_env e = Inr (?ts e)"
    by (simp add: demo_dates)
  from t h
  obtain eps where e: "date_sort demo_env [ep_jan, ep_mar, ep_feb] = Inr eps"
      "mset eps = mset [ep_jan, ep_mar, ep_feb]"
      "sorted (map (\<lambda>e. utc_instant (?ts e)) eps)"
      "map fst (List.enumerate 1 eps) = [1..<Suc (length [ep_jan, ep_mar, ep_feb])]"
    by blast
  have u: "[1..<Suc (length [ep_jan, ep_mar, ep_feb])] = [1, 2, 3]"
    by (simp add: upt_rec)
  have en: "List.enumerate 1 [ep_jan, ep_feb, ep_mar] = [(1, ep_jan), (2, ep_feb), (3, ep_mar)]"
    by (simp add: enumerate_simps)
  from e u have ex: "\<exists>eps. date_sort demo_env [ep_jan, ep_mar, ep_feb] = Inr eps
         \<and> mset eps = mset [ep_jan, ep_mar, ep_feb]
         \<and> sorted (map (\<lambda>e. utc_instant (?ts e)) eps)
         \<and> map fst (List.enumerate 1 eps) = [1, 2, 3]"
    by auto
  from t demo_setup
  obtain r root where r: "http_get demo_env (rssFeedUrl (snd (0::nat, demo_pod))) = Some r"
      and f: "fromstring demo_env (content r) = Some root"
      and ps: "process_source demo_env demo_cfg (0, demo_pod) empty_world
             = for_each (process_podcast demo_env demo_cfg demo_pc)
                 (zip [1..<Suc (length (items root))] (episodes demo_pc)) demo_w0"
    by blast
  from r f demo_http_feed demo_fromstring have "root = demo_feed" by simp
  with ps demo_zip
  have p: "process_source demo_env demo_cfg (0, demo_pod) empty_world
       = for_each (process_podcast demo_env demo_cfg demo_pc)
           [(1, ep_jan), (2, ep_feb), (3, ep_mar)] demo_w0"
    by simp
  have i: "items demo_feed = [ep_jan, ep_mar, ep_feb]" by (simp add: demo_feed_def)
  have k: "episodes demo_pc = [ep_jan, ep_feb, ep_mar]" by (simp add: demo_pc_def)
  from demo_dates demo_date_sort en ex demo_setup i k p demo_trace
  show ?thesis by (intro conjI)
qed

end
